theory Spec2Isabelle
  imports Complex_Main "HOL-Library.Sublist" "HOL-Library.AList"
begin

text \<open>
  A shallow embedding of the metadata code of the audio visualizer: the slug normaliser,
  the two tempo extractors, the two-tier cache and the resolution pipeline of the
  serverless song-info function, the serverless search function, and the search adapter
  of the Express backend. The first part translates the JavaScript sources; the second
  part proves properties of the translation.
\<close>

section \<open>JavaScript strings\<close>

text \<open>
  A JavaScript string is modelled as a \<^typ>\<open>string\<close> whose characters are the code units
  of the text, read as Latin-1: the model covers text whose code units are below 256.
  The functions below are the built-ins the sources call, restricted to that range.
\<close>

definition code :: "char \<Rightarrow> nat" where
  "code c = of_char c"

text \<open>\<^verbatim>\<open>\s\<close> and \<^verbatim>\<open>String.prototype.trim\<close>: tab, line feed, vertical tab, form
  feed, carriage return, space and no-break space.\<close>

definition isSpace :: "char \<Rightarrow> bool" where
  "isSpace c = (code c = 9 \<or> code c = 10 \<or> code c = 11 \<or> code c = 12 \<or> code c = 13
                \<or> code c = 32 \<or> code c = 160)"

text \<open>The characters the regular expression dot does not match.\<close>

definition isLineTerminator :: "char \<Rightarrow> bool" where
  "isLineTerminator c = (code c = 10 \<or> code c = 13)"

definition isDigit :: "char \<Rightarrow> bool" where
  "isDigit c = (48 \<le> code c \<and> code c \<le> 57)"

definition isLowerAlpha :: "char \<Rightarrow> bool" where
  "isLowerAlpha c = (97 \<le> code c \<and> code c \<le> 122)"

definition toLowerChar :: "char \<Rightarrow> char" where
  "toLowerChar c =
     (if (65 \<le> code c \<and> code c \<le> 90) \<or> (192 \<le> code c \<and> code c \<le> 222 \<and> code c \<noteq> 215)
      then char_of (code c + 32) else c)"

text \<open>\<^verbatim>\<open>toUpperCase\<close> is only applied to note names, which are ASCII.\<close>

definition toUpperChar :: "char \<Rightarrow> char" where
  "toUpperChar c = (if isLowerAlpha c then char_of (code c - 32) else c)"

definition toLowerCase :: "string \<Rightarrow> string" where
  "toLowerCase s = map toLowerChar s"

definition trim :: "string \<Rightarrow> string" where
  "trim s = rev (dropWhile isSpace (rev (dropWhile isSpace s)))"

text \<open>\<^verbatim>\<open>s.includes(sub)\<close>: \<open>sub\<close> occurs in \<open>s\<close> as a contiguous substring.\<close>

fun str_includes :: "string \<Rightarrow> string \<Rightarrow> bool" where
  "str_includes [] sub = (sub = [])"
| "str_includes (c # cs) sub = (prefix sub (c # cs) \<or> str_includes cs sub)"

definition startsWith :: "string \<Rightarrow> string \<Rightarrow> bool" where
  "startsWith s p = prefix p s"

text \<open>\<^verbatim>\<open>s.split(/\s+/)\<close>: the pieces between maximal runs of white space; a run
  at either end leaves an empty piece there, and the empty string gives one empty piece.\<close>

fun splitSpaces :: "string \<Rightarrow> string list" where
  "splitSpaces [] = [[]]"
| "splitSpaces (c # cs) =
     (if isSpace c then
        (case cs of
           [] \<Rightarrow> [[], []]
         | d # ds \<Rightarrow> if isSpace d then splitSpaces cs else [] # splitSpaces cs)
      else
        (case splitSpaces cs of
           [] \<Rightarrow> [[c]]
         | w # ws \<Rightarrow> (c # w) # ws))"

text \<open>\<^verbatim>\<open>parseInt\<close> on a string of decimal digits.\<close>

definition digitVal :: "char \<Rightarrow> nat" where
  "digitVal c = code c - 48"

definition parseInt :: "string \<Rightarrow> nat" where
  "parseInt s = foldl (\<lambda>n c. 10 * n + digitVal c) 0 s"

section \<open>The slug normaliser of the song-info function\<close>

text \<open>
  \<^verbatim>\<open>.replace(/\(feat\.?.*?\)/gi, '')\<close> on a lower-cased string. A match starts at an
  occurrence of the tag \<^verbatim>\<open>(feat\<close> and ends at the first closing parenthesis after it,
  provided no line terminator lies in between (the optional dot is matched by the lazy
  wildcard as well, so it does not change where the match ends). \<open>untilClose\<close> returns
  what follows that closing parenthesis.
\<close>

fun untilClose :: "string \<Rightarrow> string option" where
  "untilClose [] = None"
| "untilClose (c # cs) =
     (if c = CHR '')'' then Some cs
      else if isLineTerminator c then None
      else untilClose cs)"

lemma untilClose_length: "untilClose s = Some r \<Longrightarrow> length r < length s"
  by (induction s) (auto split: if_splits)

function stripParen :: "string \<Rightarrow> string \<Rightarrow> string" where
  "stripParen tag [] = []"
| "stripParen tag (c # cs) =
     (if prefix tag (c # cs) then
        (case untilClose (drop (length tag) (c # cs)) of
           Some rest \<Rightarrow> stripParen tag rest
         | None \<Rightarrow> c # stripParen tag cs)
      else c # stripParen tag cs)"
  by pat_completeness auto
termination
proof (relation "measure (\<lambda>(tag, s). length s)")
  show "wf (measure (\<lambda>(tag, s). length s))" by simp
next
  fix tag :: string and c cs rest
  assume "untilClose (drop (length tag) (c # cs)) = Some rest"
  then have "length rest < length (drop (length tag) (c # cs))"
    by (rule untilClose_length)
  then show "((tag, rest), (tag, c # cs)) \<in> measure (\<lambda>(tag, s). length s)"
    by simp
qed simp_all

text \<open>\<^verbatim>\<open>.replace(/[^a-z0-9\s-]/g, '')\<close>\<close>

definition keptChar :: "char \<Rightarrow> bool" where
  "keptChar c = (isLowerAlpha c \<or> isDigit c \<or> isSpace c \<or> c = CHR ''-'')"

definition removeSpecial :: "string \<Rightarrow> string" where
  "removeSpecial s = filter keptChar s"

text \<open>\<^verbatim>\<open>.replace(/\s+/g, '-')\<close>\<close>

fun spacesToHyphen :: "string \<Rightarrow> string" where
  "spacesToHyphen [] = []"
| "spacesToHyphen [c] = (if isSpace c then [CHR ''-''] else [c])"
| "spacesToHyphen (c # d # ds) =
     (if isSpace c then
        (if isSpace d then spacesToHyphen (d # ds) else CHR ''-'' # spacesToHyphen (d # ds))
      else c # spacesToHyphen (d # ds))"

text \<open>\<^verbatim>\<open>.replace(/-+/g, '-')\<close>\<close>

fun collapseHyphens :: "string \<Rightarrow> string" where
  "collapseHyphens [] = []"
| "collapseHyphens [c] = [c]"
| "collapseHyphens (c # d # ds) =
     (if c = CHR ''-'' \<and> d = CHR ''-'' then collapseHyphens (d # ds)
      else c # collapseHyphens (d # ds))"

text \<open>\<^verbatim>\<open>.replace(/^-|-$/g, '')\<close>: one hyphen at the very start and one at the very end.\<close>

definition stripLeadingHyphen :: "string \<Rightarrow> string" where
  "stripLeadingHyphen s = (case s of [] \<Rightarrow> [] | c # cs \<Rightarrow> if c = CHR ''-'' then cs else s)"

definition stripTrailingHyphen :: "string \<Rightarrow> string" where
  "stripTrailingHyphen s = (if s \<noteq> [] \<and> last s = CHR ''-'' then butlast s else s)"

definition stripEdgeHyphens :: "string \<Rightarrow> string" where
  "stripEdgeHyphens s = stripTrailingHyphen (stripLeadingHyphen s)"

definition normalizeForUrl :: "string \<Rightarrow> string" where
  "normalizeForUrl txt =
     stripEdgeHyphens
       (collapseHyphens
         (spacesToHyphen
           (removeSpecial
             (stripParen ''(ft''
               (stripParen ''(feat''
                 (trim (toLowerCase txt)))))))"

section \<open>The slug helper of the Express scraper\<close>

text \<open>
  \<^verbatim>\<open>createSlug\<close> is the second slug function of the repository. It has the steps of
  \<^verbatim>\<open>normalizeForUrl\<close> in another order and three differences: it also removes an
  unparenthesised \<^verbatim>\<open>feat\<close> or \<^verbatim>\<open>ft\<close> with everything after it, it removes hyphens
  with the other special characters, and it trims last.

  \<^verbatim>\<open>.replace(/feat\.?.*$/gi, '')\<close> on a lower-cased string: the match starts at the
  first occurrence of the tag that no line terminator follows, and runs to the end.
\<close>

fun stripToEnd :: "string \<Rightarrow> string \<Rightarrow> string" where
  "stripToEnd tag [] = []"
| "stripToEnd tag (c # cs) =
     (if prefix tag (c # cs) \<and> \<not> list_ex isLineTerminator (drop (length tag) (c # cs))
      then []
      else c # stripToEnd tag cs)"

text \<open>\<^verbatim>\<open>.replace(/[^a-z0-9\s]/g, '')\<close>\<close>

definition removeSpecialAndHyphens :: "string \<Rightarrow> string" where
  "removeSpecialAndHyphens s = filter (\<lambda>c. isLowerAlpha c \<or> isDigit c \<or> isSpace c) s"

definition createSlug :: "string \<Rightarrow> string" where
  "createSlug txt =
     trim
       (stripEdgeHyphens
         (collapseHyphens
           (spacesToHyphen
             (removeSpecialAndHyphens
               (stripToEnd ''ft''
                 (stripToEnd ''feat''
                   (stripParen ''(ft''
                     (stripParen ''(feat''
                       (toLowerCase txt)))))))))"

section \<open>Parsed pages\<close>

text \<open>
  The HTML parser (cheerio) is a library outside the repository. A fetched document is
  modelled by what the sources read from it: its \<^verbatim>\<open>dd\<close> elements in document order
  (text content, whether the element carries the class \<^verbatim>\<open>text-card-foreground\<close>, and
  the text of the immediately preceding sibling when that sibling is a \<^verbatim>\<open>dt\<close>), and
  its anchors (the \<^verbatim>\<open>href\<close> attribute, when present, and the link text).
\<close>

record dd_elem =
  dd_text :: string
  dd_card :: bool
  dd_prev_dt :: "string option"

record anchor =
  href :: "string option"
  link_text :: string

record page =
  dds :: "dd_elem list"
  anchors :: "anchor list"

record song_info =
  bpm :: "nat option"
  key :: "string option"
  genre :: "string option"

text \<open>JavaScript truthiness of a number-or-null and of a string-or-null.\<close>

definition truthyNum :: "nat option \<Rightarrow> bool" where
  "truthyNum v = (case v of None \<Rightarrow> False | Some n \<Rightarrow> n \<noteq> 0)"

definition truthyStr :: "string option \<Rightarrow> bool" where
  "truthyStr v = (case v of None \<Rightarrow> False | Some s \<Rightarrow> s \<noteq> [])"

section \<open>The extractor of the song-info function\<close>

text \<open>\<^verbatim>\<open>text.match(/^\d+$/)\<close>\<close>

definition isBareInteger :: "string \<Rightarrow> bool" where
  "isBareInteger t = (t \<noteq> [] \<and> list_all isDigit t)"

definition genres :: "string list" where
  "genres = [''pop'', ''rock'', ''r&b'', ''hip hop'', ''electronic'', ''dance'', ''jazz'',
             ''classical'', ''soul'', ''indie'', ''alternative'']"

definition nullInfo :: song_info where
  "nullInfo = \<lparr>bpm = None, key = None, genre = None\<rparr>"

text \<open>The callback of \<^verbatim>\<open>ddTags.each\<close>: one \<^verbatim>\<open>dd\<close> element against the result so far.\<close>

definition extractStep :: "song_info \<Rightarrow> dd_elem \<Rightarrow> song_info" where
  "extractStep result elem =
     (let txt = trim (dd_text elem) in
      if txt = [] then result
      else
        let r1 = (if isBareInteger txt \<and> \<not> str_includes txt '':'' then
                    (let b = parseInt txt in
                     if b \<ge> 40 \<and> b \<le> 240 \<and> \<not> truthyNum (bpm result)
                     then result\<lparr>bpm := Some b\<rparr> else result)
                  else result);
            r2 = (if (str_includes (toLowerCase txt) ''major'' \<or> str_includes (toLowerCase txt) ''minor'')
                     \<and> \<not> truthyStr (key r1)
                  then r1\<lparr>key := Some txt\<rparr> else r1);
            textLower = toLowerCase txt;
            r3 = (if \<not> truthyStr (genre r2) \<and> list_ex (\<lambda>g. str_includes textLower g) genres
                  then r2\<lparr>genre := Some txt\<rparr> else r2)
        in r3)"

definition extractSongInfo :: "page \<Rightarrow> song_info" where
  "extractSongInfo html = foldl extractStep nullInfo (dds html)"

section \<open>The page parser of the Express scraper\<close>

text \<open>
  The part of \<^verbatim>\<open>scrapeSongBPM\<close> that runs once the page is fetched: the loop over
  \<^verbatim>\<open>dd.text-card-foreground\<close>, the range validation and the final throw.
  \<open>numberMatch\<close> is \<^verbatim>\<open>/^\s*(\d{1,3})\s*$/\<close> (the captured digits), \<open>keyMatch\<close> is
  \<^verbatim>\<open>/^\s*([A-G][#b]?)\s*$/i\<close> (the sharp and flat signs of the source's character class
  lie outside the modelled range of code units).
\<close>

definition numberMatch :: "string \<Rightarrow> string option" where
  "numberMatch t =
     (let m = trim t in
      if 1 \<le> length m \<and> length m \<le> 3 \<and> list_all isDigit m then Some m else None)"

definition isNoteLetter :: "char \<Rightarrow> bool" where
  "isNoteLetter c = ((65 \<le> code c \<and> code c \<le> 71) \<or> (97 \<le> code c \<and> code c \<le> 103))"

definition isAccidental :: "char \<Rightarrow> bool" where
  "isAccidental c = (c = CHR ''#'' \<or> c = CHR ''b'' \<or> c = CHR ''B'')"

definition keyMatch :: "string \<Rightarrow> string option" where
  "keyMatch t =
     (case trim t of
        [c] \<Rightarrow> if isNoteLetter c then Some [c] else None
      | [c, d] \<Rightarrow> if isNoteLetter c \<and> isAccidental d then Some [c, d] else None
      | _ \<Rightarrow> None)"

definition labelOf :: "dd_elem \<Rightarrow> string" where
  "labelOf elem = toLowerCase (trim (case dd_prev_dt elem of None \<Rightarrow> [] | Some l \<Rightarrow> l))"

definition keyStep :: "dd_elem \<Rightarrow> string option \<Rightarrow> string option" where
  "keyStep elem k =
     (case keyMatch (trim (dd_text elem)) of
        None \<Rightarrow> k
      | Some m \<Rightarrow> if str_includes (labelOf elem) ''key'' then Some (map toUpperChar m) else k)"

text \<open>The \<^verbatim>\<open>each\<close> loop; returning from the recursion without a call is the
  callback's \<^verbatim>\<open>return false\<close>.\<close>

fun scrapeLoop :: "dd_elem list \<Rightarrow> nat option \<times> string option \<Rightarrow> nat option \<times> string option" where
  "scrapeLoop [] (b, k) = (b, k)"
| "scrapeLoop (elem # rest) (b, k) =
     (case numberMatch (trim (dd_text elem)) of
        Some digits \<Rightarrow>
          (let v = parseInt digits; labelText = labelOf elem in
           if (str_includes labelText ''tempo'' \<or> str_includes labelText ''bpm'')
              \<and> v \<ge> 40 \<and> v \<le> 240
           then (Some v, k)
           else if str_includes labelText ''key'' \<and> v < 40 then scrapeLoop rest (b, k)
           else scrapeLoop rest (b, keyStep elem k))
      | None \<Rightarrow> scrapeLoop rest (b, keyStep elem k))"

definition scrapeSongBPM_parse :: "page \<Rightarrow> string + (nat \<times> string option)" where
  "scrapeSongBPM_parse html =
     (let (b0, k) = scrapeLoop (filter dd_card (dds html)) (None, None);
          b = (case b0 of
                 None \<Rightarrow> None
               | Some v \<Rightarrow> if v \<noteq> 0 \<and> (v < 40 \<or> v > 240) then None else Some v)
      in case b of
           None \<Rightarrow> Inl ''Could not find BPM on the page''
         | Some v \<Rightarrow> if v = 0 then Inl ''Could not find BPM on the page'' else Inr (v, k))"

section \<open>The hybrid cache of the song-info function\<close>

text \<open>
  \<^verbatim>\<open>memoryCache\<close> is a JavaScript \<^verbatim>\<open>Map\<close>: it iterates in insertion order, setting
  a key that is present replaces the value in place, and a deleted key that is set again
  goes to the end. It is modelled as an association list in iteration order.
\<close>

record cache_entry =
  data :: song_info
  timestamp :: int

type_synonym memory_cache = "(string \<times> cache_entry) list"

definition Map_get :: "memory_cache \<Rightarrow> string \<Rightarrow> cache_entry option" where
  "Map_get m k = map_of m k"

definition Map_delete :: "string \<Rightarrow> memory_cache \<Rightarrow> memory_cache" where
  "Map_delete k m = AList.delete k m"

definition Map_set :: "string \<Rightarrow> cache_entry \<Rightarrow> memory_cache \<Rightarrow> memory_cache" where
  "Map_set k e m = AList.update k e m"

definition Map_size :: "memory_cache \<Rightarrow> nat" where
  "Map_size m = length m"

definition Map_keys :: "memory_cache \<Rightarrow> string list" where
  "Map_keys m = map fst m"

definition CACHE_TTL_SECONDS :: int where
  "CACHE_TTL_SECONDS = 60 * 30"

definition CACHE_TTL_MS :: int where
  "CACHE_TTL_MS = CACHE_TTL_SECONDS * 1000"

definition MAX_MEMORY_CACHE_SIZE :: nat where
  "MAX_MEMORY_CACHE_SIZE = 50"

text \<open>
  The persistent store (Vercel KV) is an external service. It is modelled as a table from
  keys to a value and the instant at which the store drops it: \<^verbatim>\<open>kv.set\<close> with
  \<^verbatim>\<open>ex\<close> seconds replaces the value and its deadline, \<^verbatim>\<open>kv.get\<close> returns a value
  whose deadline has not passed. A call to the store may fail; whether reads and writes
  succeed during one request is part of the environment of that request.
\<close>

type_synonym kv_store = "(string \<times> song_info \<times> int) list"

definition kv_get :: "int \<Rightarrow> kv_store \<Rightarrow> string \<Rightarrow> song_info option" where
  "kv_get t store k =
     (case map_of store k of
        None \<Rightarrow> None
      | Some (d, deadline) \<Rightarrow> if t < deadline then Some d else None)"

definition kv_set :: "int \<Rightarrow> string \<Rightarrow> song_info \<Rightarrow> int \<Rightarrow> kv_store \<Rightarrow> kv_store" where
  "kv_set t k d ex store = AList.update k (d, t + ex * 1000) store"

text \<open>
  A reply of the page provider to one GET: no reply at all (time-out, connection
  failure), or a status code and the document.
\<close>

datatype http_reply = NetworkError | Reply nat page

datatype js_error = Error string

text \<open>
  The environment of one request: the clock (read as one instant for the whole request),
  the provider's reply to each URL, and whether the persistent store answers.
\<close>

record env =
  now :: int
  http :: "string \<Rightarrow> http_reply"
  kvReadOk :: bool
  kvWriteOk :: bool

text \<open>
  The state of the process and of the store. \<open>requests\<close> is not in the source: it logs
  the URL of every GET the process issues, so that theorems can speak about scrapes.
\<close>

record world =
  memoryCache :: memory_cache
  kvStore :: kv_store
  requests :: "string list"

definition getCacheKey :: "string \<Rightarrow> string \<Rightarrow> string" where
  "getCacheKey artist title = ''song:'' @ toLowerCase artist @ '':'' @ toLowerCase title"

text \<open>\<^verbatim>\<open>getCache\<close> returns the cached data with its \<^verbatim>\<open>cacheLayer\<close> tag, or null.\<close>

definition getCache :: "env \<Rightarrow> string \<Rightarrow> world \<Rightarrow> (song_info \<times> string) option \<times> world" where
  "getCache e k w =
     (let (memHit, w1) =
            (case Map_get (memoryCache w) k of
               None \<Rightarrow> (None, w)
             | Some memEntry \<Rightarrow>
                 (let isExpired = (now e - timestamp memEntry > CACHE_TTL_MS) in
                  if \<not> isExpired then (Some (data memEntry), w)
                  else (None, w\<lparr>memoryCache := Map_delete k (memoryCache w)\<rparr>)))
      in case memHit of
           Some d \<Rightarrow> (Some (d, ''memory''), w1)
         | None \<Rightarrow>
             if kvReadOk e then
               (case kv_get (now e) (kvStore w1) k of
                  Some kvData \<Rightarrow>
                    (Some (kvData, ''kv''),
                     w1\<lparr>memoryCache :=
                           Map_set k \<lparr>data = kvData, timestamp = now e\<rparr> (memoryCache w1)\<rparr>)
                | None \<Rightarrow> (None, w1))
             else (None, w1))"

text \<open>
  The first block of \<^verbatim>\<open>setCache\<close> (store in the memory cache). The size bound is an
  argument here so that the block can also be run with another bound; \<^verbatim>\<open>setCache\<close>
  passes the constant of the source.
\<close>

definition memoryStore :: "nat \<Rightarrow> int \<Rightarrow> string \<Rightarrow> song_info \<Rightarrow> memory_cache \<Rightarrow> memory_cache" where
  "memoryStore bound t k d m =
     (let m1 = (if Map_size m \<ge> bound then
                  (case Map_keys m of
                     [] \<Rightarrow> m
                   | oldestKey # _ \<Rightarrow> Map_delete oldestKey m)
                else m)
      in Map_set k \<lparr>data = d, timestamp = t\<rparr> m1)"

definition setCache :: "env \<Rightarrow> string \<Rightarrow> song_info \<Rightarrow> world \<Rightarrow> world" where
  "setCache e k d w =
     (let w1 = w\<lparr>memoryCache := memoryStore MAX_MEMORY_CACHE_SIZE (now e) k d (memoryCache w)\<rparr>
      in if kvWriteOk e
         then w1\<lparr>kvStore := kv_set (now e) k d CACHE_TTL_SECONDS (kvStore w1)\<rparr>
         else w1)"

section \<open>The resolution pipeline of the song-info function\<close>

text \<open>
  \<^verbatim>\<open>axios.get\<close>: the promise rejects when there is no reply or when
  \<^verbatim>\<open>validateStatus\<close> refuses the status; otherwise it yields status and document.
\<close>

definition axios_get :: "(nat \<Rightarrow> bool) \<Rightarrow> env \<Rightarrow> string \<Rightarrow> world \<Rightarrow> (js_error + nat \<times> page) \<times> world" where
  "axios_get validateStatus e url w =
     (let w1 = w\<lparr>requests := requests w @ [url]\<rparr> in
      case http e url of
        NetworkError \<Rightarrow> (Inl (Error ''Network Error''), w1)
      | Reply st doc \<Rightarrow>
          if validateStatus st then (Inr (st, doc), w1)
          else (Inl (Error ''Request failed with status code''), w1))"

text \<open>The default \<^verbatim>\<open>validateStatus\<close> of axios.\<close>

definition defaultValidateStatus :: "nat \<Rightarrow> bool" where
  "defaultValidateStatus st = (200 \<le> st \<and> st < 300)"

text \<open>The search for the song link on the artist page: the anchors selected by
  \<^verbatim>\<open>a[href*="/@slug/"]\<close>, and the first of them whose address or text has the title slug.\<close>

definition artistLinks :: "string \<Rightarrow> page \<Rightarrow> anchor list" where
  "artistLinks artistSlug doc =
     filter (\<lambda>a. case href a of
                    None \<Rightarrow> False
                  | Some h \<Rightarrow> str_includes h (''/@'' @ artistSlug @ ''/'')) (anchors doc)"

fun findSongUrl :: "string \<Rightarrow> anchor list \<Rightarrow> string option" where
  "findSongUrl titleSlug [] = None"
| "findSongUrl titleSlug (a # as) =
     (case href a of
        None \<Rightarrow> findSongUrl titleSlug as
      | Some h \<Rightarrow>
          if h \<noteq> [] \<and> (str_includes (toLowerCase h) titleSlug
                        \<or> str_includes (toLowerCase (link_text a)) titleSlug)
          then Some (''https://songbpm.com'' @ h)
          else findSongUrl titleSlug as)"

text \<open>
  The \<^verbatim>\<open>try\<close> block of \<^verbatim>\<open>fetchSongInfo\<close>, in two parts. The result is \<open>Inl\<close> when
  an exception leaves the block, \<open>Inr (Some info)\<close> when the block returns \<open>info\<close>, and
  \<open>Inr None\<close> when control reaches the end of the block.
\<close>

definition artistPageFallback ::
  "env \<Rightarrow> string \<Rightarrow> string \<Rightarrow> string \<Rightarrow> world \<Rightarrow> (js_error + song_info option) \<times> world" where
  "artistPageFallback e cacheKey artistSlug titleSlug w =
     (case axios_get defaultValidateStatus e (''https://songbpm.com/@'' @ artistSlug) w of
        (Inl err, w1) \<Rightarrow> (Inl err, w1)
      | (Inr (st, doc), w1) \<Rightarrow>
          if st = 200 then
            (case findSongUrl titleSlug (artistLinks artistSlug doc) of
               None \<Rightarrow> (Inr None, w1)
             | Some songUrl \<Rightarrow>
                 (case axios_get defaultValidateStatus e songUrl w1 of
                    (Inl err, w2) \<Rightarrow> (Inl err, w2)
                  | (Inr (st2, doc2), w2) \<Rightarrow>
                      (let info = extractSongInfo doc2 in
                       if truthyNum (bpm info) then (Inr (Some info), setCache e cacheKey info w2)
                       else (Inr None, w2))))
          else (Inr None, w1))"

definition scrapeAttempt ::
  "env \<Rightarrow> string \<Rightarrow> string \<Rightarrow> string \<Rightarrow> world \<Rightarrow> (js_error + song_info option) \<times> world" where
  "scrapeAttempt e cacheKey artist title w =
     (let artistSlug = normalizeForUrl artist;
          titleSlug = normalizeForUrl title;
          directUrl = ''https://songbpm.com/@'' @ artistSlug @ ''/'' @ titleSlug
      in case axios_get (\<lambda>st. st < 500) e directUrl w of
           (Inl err, w1) \<Rightarrow> (Inl err, w1)
         | (Inr (st, doc), w1) \<Rightarrow>
             if st = 200 \<and> truthyNum (bpm (extractSongInfo doc))
             then (Inr (Some (extractSongInfo doc)), setCache e cacheKey (extractSongInfo doc) w1)
             else artistPageFallback e cacheKey artistSlug titleSlug w1)"

text \<open>What \<^verbatim>\<open>fetchSongInfo\<close> returns: the three fields, and the two that only a cache
  hit adds.\<close>

record song_result =
  info :: song_info
  cacheLayer :: "string option"
  fromCache :: bool

text \<open>
  A query parameter as the platform hands it to the handler: a string, or an array of
  strings when the parameter is given more than once.
\<close>

datatype query_value = Str string | Arr "string list"

text \<open>
  \<^verbatim>\<open>fetchSongInfo\<close>. Its first statement, the call of \<^verbatim>\<open>getCacheKey\<close>, is outside
  the \<^verbatim>\<open>try\<close> block and calls \<^verbatim>\<open>toLowerCase\<close> on the artist and then on the title:
  on an array that call is a type error, which leaves \<^verbatim>\<open>fetchSongInfo\<close>. On strings,
  the \<^verbatim>\<open>catch\<close> clause logs the exception and falls through to the final
  \<^verbatim>\<open>return\<close>, as the end of the \<^verbatim>\<open>try\<close> block does.
\<close>

definition fetchSongInfo ::
  "env \<Rightarrow> query_value \<Rightarrow> query_value \<Rightarrow> world \<Rightarrow> (js_error + song_result) \<times> world" where
  "fetchSongInfo e artistParam titleParam w =
     (case artistParam of
        Arr v \<Rightarrow> (Inl (Error ''artist.toLowerCase is not a function''), w)
      | Str artist \<Rightarrow>
          (case titleParam of
             Arr v \<Rightarrow> (Inl (Error ''title.toLowerCase is not a function''), w)
           | Str title \<Rightarrow>
               (let cacheKey = getCacheKey artist title in
                case getCache e cacheKey w of
                  (Some (d, layer), w1) \<Rightarrow>
                    (Inr \<lparr>info = d, cacheLayer = Some layer, fromCache = True\<rparr>, w1)
                | (None, w1) \<Rightarrow>
                    (case scrapeAttempt e cacheKey artist title w1 of
                       (Inr (Some found), w2) \<Rightarrow>
                         (Inr \<lparr>info = found, cacheLayer = None, fromCache = False\<rparr>, w2)
                     | (Inr None, w2) \<Rightarrow>
                         (Inr \<lparr>info = nullInfo, cacheLayer = None, fromCache = False\<rparr>, w2)
                     | (Inl err, w2) \<Rightarrow>
                         (Inr \<lparr>info = nullInfo, cacheLayer = None, fromCache = False\<rparr>, w2)))))"

text \<open>The serverless handler of \<^verbatim>\<open>/api/song-info\<close>.\<close>

record request =
  req_method :: string
  query_artist :: "query_value option"
  query_title :: "query_value option"

datatype response_body =
    NoBody
  | ErrorBody string
  | SongInfoBody query_value query_value "nat option" "string option" "string option" bool string nat

record response =
  status :: nat
  body :: response_body

text \<open>The fields of \<open>SongInfoBody\<close> are \<^verbatim>\<open>artist\<close>, \<^verbatim>\<open>title\<close>, \<^verbatim>\<open>bpm\<close>, \<^verbatim>\<open>key\<close>,
  \<^verbatim>\<open>genre\<close>, \<^verbatim>\<open>cached\<close>, \<^verbatim>\<open>cacheLayer\<close> and \<^verbatim>\<open>cacheStats.memorySize\<close>.

  \<^verbatim>\<open>!artist\<close>: a missing parameter and the empty string are falsy, an array is truthy.\<close>

definition falsyParam :: "query_value option \<Rightarrow> bool" where
  "falsyParam v = (case v of None \<Rightarrow> True | Some (Str s) \<Rightarrow> s = [] | Some (Arr xs) \<Rightarrow> False)"

definition handler_song_info :: "env \<Rightarrow> request \<Rightarrow> world \<Rightarrow> response \<times> world" where
  "handler_song_info e req w =
     (if req_method req = ''OPTIONS'' then (\<lparr>status = 200, body = NoBody\<rparr>, w)
      else if req_method req \<noteq> ''GET'' then
        (\<lparr>status = 405, body = ErrorBody ''Method not allowed''\<rparr>, w)
      else if falsyParam (query_artist req) \<or> falsyParam (query_title req) then
        (\<lparr>status = 400, body = ErrorBody ''Missing required parameters''\<rparr>, w)
      else
        (case (query_artist req, query_title req) of
           (Some artist, Some title) \<Rightarrow>
             (case fetchSongInfo e artist title w of
                (Inl (Error msg), w1) \<Rightarrow>
                  (\<lparr>status = 500, body = ErrorBody ''Internal server error''\<rparr>, w1)
              | (Inr r, w1) \<Rightarrow>
                  (\<lparr>status = 200,
                    body = SongInfoBody artist title (bpm (info r)) (key (info r)) (genre (info r))
                             (fromCache r)
                             (if truthyStr (cacheLayer r) then the (cacheLayer r) else ''fresh'')
                             (Map_size (memoryCache w1))\<rparr>, w1))
         | _ \<Rightarrow> (\<lparr>status = 400, body = ErrorBody ''Missing required parameters''\<rparr>, w)))"

section \<open>The search function (serverless)\<close>

text \<open>
  The catalogue (Spotify) is an external service. For one request the environment gives
  the clock, the configured credentials, the outcome of the token request (a failure, or a
  token and its optional lifetime in seconds), and the outcome of the search request (a
  failure, or the list under \<^verbatim>\<open>data.tracks.items\<close> when \<^verbatim>\<open>data.tracks\<close> is there).
  \<^verbatim>\<open>axios\<close> rejects on a missing reply and on a status outside 2xx: both are failures.
\<close>

record track =
  name :: string
  artists :: "string list"
  track_id :: string
  spotify_url :: string
  popularity :: int

datatype token_reply = TokenFailure | TokenGranted string "nat option"

datatype search_reply = SearchFailure | SearchData "track list option"

record spotify_env =
  s_now :: int
  clientId :: "string option"
  clientSecret :: "string option"
  tokenReply :: token_reply
  searchReply :: search_reply

record token_state =
  cachedToken :: "string option"
  tokenExpiresAt :: int

definition getSpotifyToken :: "spotify_env \<Rightarrow> token_state \<Rightarrow> (js_error + string) \<times> token_state" where
  "getSpotifyToken e st =
     (if truthyStr (cachedToken st) \<and> s_now e < tokenExpiresAt st
      then (Inr (the (cachedToken st)), st)
      else if \<not> truthyStr (clientId e) \<or> \<not> truthyStr (clientSecret e)
      then (Inl (Error ''Spotify credentials not configured''), st)
      else
        (case tokenReply e of
           TokenFailure \<Rightarrow> (Inl (Error ''Request failed''), st)
         | TokenGranted tok expires_in \<Rightarrow>
             (let expiresInMs = int (case expires_in of
                                       None \<Rightarrow> 3600
                                     | Some n \<Rightarrow> if n = 0 then 3600 else n) * 1000
              in (Inr tok, \<lparr>cachedToken = Some tok,
                             tokenExpiresAt = s_now e + expiresInMs - 60000\<rparr>))))"

record search_result =
  r_title :: string
  r_artist :: string
  r_trackId :: string
  r_spotifyUrl :: "string option"
  r_popularity :: "int option"
  r_source :: string

text \<open>
  \<^verbatim>\<open>searchSpotify\<close>. Everything after \<^verbatim>\<open>try\<close> is inside the block, and the
  \<^verbatim>\<open>catch\<close> clause returns null: a failed token request, a failed search request and the
  type error of reading \<^verbatim>\<open>artists[0].name\<close> on a track without artists all end there.
\<close>

definition searchSpotify ::
  "spotify_env \<Rightarrow> string \<Rightarrow> token_state \<Rightarrow> (js_error + search_result option) \<times> token_state" where
  "searchSpotify e query st =
     (case getSpotifyToken e st of
        (Inl err, st1) \<Rightarrow> (Inr None, st1)
      | (Inr token, st1) \<Rightarrow>
          (case searchReply e of
             SearchFailure \<Rightarrow> (Inr None, st1)
           | SearchData None \<Rightarrow> (Inr None, st1)
           | SearchData (Some []) \<Rightarrow> (Inr None, st1)
           | SearchData (Some (t # _)) \<Rightarrow>
               (case artists t of
                  [] \<Rightarrow> (Inr None, st1)
                | a # _ \<Rightarrow>
                    (Inr (Some \<lparr>r_title = name t, r_artist = a, r_trackId = track_id t,
                                 r_spotifyUrl = Some (spotify_url t),
                                 r_popularity = Some (popularity t),
                                 r_source = ''spotify-api''\<rparr>), st1))))"

record search_request =
  sreq_method :: string
  sreq_query :: "string option"

datatype search_body =
    SNoBody
  | SErrorBody string
  | SResults "search_result list"

record search_response =
  s_status :: nat
  s_body :: search_body

definition handler_search ::
  "spotify_env \<Rightarrow> search_request \<Rightarrow> token_state \<Rightarrow> search_response \<times> token_state" where
  "handler_search e req st =
     (if sreq_method req = ''OPTIONS'' then (\<lparr>s_status = 200, s_body = SNoBody\<rparr>, st)
      else if sreq_method req \<noteq> ''GET'' then
        (\<lparr>s_status = 405, s_body = SErrorBody ''Method not allowed''\<rparr>, st)
      else
        (case sreq_query req of
           None \<Rightarrow> (\<lparr>s_status = 400, s_body = SErrorBody ''Missing query parameter''\<rparr>, st)
         | Some query \<Rightarrow>
             if query = [] then
               (\<lparr>s_status = 400, s_body = SErrorBody ''Missing query parameter''\<rparr>, st)
             else
               (case searchSpotify e query st of
                  (Inl (Error msg), st1) \<Rightarrow>
                    (\<lparr>s_status = 500, s_body = SErrorBody ''Internal server error''\<rparr>, st1)
                | (Inr None, st1) \<Rightarrow>
                    (\<lparr>s_status = 200,
                      s_body = SResults [\<lparr>r_title = query, r_artist = ''Not found'',
                                           r_trackId = [], r_spotifyUrl = None,
                                           r_popularity = None,
                                           r_source = ''not-found''\<rparr>]\<rparr>, st1)
                | (Inr (Some result), st1) \<Rightarrow>
                    (\<lparr>s_status = 200, s_body = SResults [result]\<rparr>, st1))))"

section \<open>The search adapter of the Express backend\<close>

text \<open>
  \<^verbatim>\<open>searchSpotifyAPI\<close> scores the candidates. Scores are JavaScript numbers, that is
  IEEE doubles; the only fractional term is \<^verbatim>\<open>popularity / 5\<close>, and the model computes
  with exact rationals. The two agree when every popularity is a multiple of 5, since all
  terms are then integers. Otherwise a double can differ from the exact score in its last
  bit, which can make two candidates of equal exact score unequal, or the reverse: what the
  model says about such ties is about exact scores only.
\<close>

definition wordPoints :: "string \<Rightarrow> string \<Rightarrow> string \<Rightarrow> rat" where
  "wordPoints trackTitle trackArtist word =
     (if length word \<ge> 2 then
        (if str_includes trackTitle word then 20 else 0)
        + (if str_includes trackArtist word then 5 else 0)
        + (if startsWith trackTitle word then 10 else 0)
      else 0)"

definition unmatchedWords :: "string list \<Rightarrow> string \<Rightarrow> string list" where
  "unmatchedWords queryWords trackTitle =
     filter (\<lambda>word. length word \<ge> 3
                     \<and> \<not> list_ex (\<lambda>qw. str_includes qw word \<or> str_includes word qw) queryWords)
            (splitSpaces trackTitle)"

text \<open>The body of the scoring loop for one track. A track without artists makes the
  source throw before any score is used; \<^verbatim>\<open>searchSpotifyAPI\<close> below tests for that.\<close>

definition scoreOf :: "string \<Rightarrow> track \<Rightarrow> rat" where
  "scoreOf query t =
     (let queryWords = splitSpaces (toLowerCase query);
          trackTitle = toLowerCase (name t);
          trackArtist = toLowerCase (case artists t of [] \<Rightarrow> [] | a # _ \<Rightarrow> a);
          s1 = foldl (\<lambda>score word. score + wordPoints trackTitle trackArtist word) 0 queryWords;
          s2 = (if trackTitle = toLowerCase query then s1 + 100 else s1);
          s3 = (if str_includes trackTitle (toLowerCase query) then s2 + 30 else s2);
          s4 = s3 + of_int (popularity t) / 5;
          s5 = (if popularity t \<ge> 80 then s4 + 30 else s4)
      in s5 - of_nat (length (unmatchedWords queryWords trackTitle)) * 8)"

text \<open>The \<^verbatim>\<open>for\<close> loop: \<^verbatim>\<open>bestTrack\<close> starts as the first track and
  \<^verbatim>\<open>bestScore\<close> as \<open>-1\<close>.\<close>

definition bestMatch :: "string \<Rightarrow> track \<Rightarrow> track list \<Rightarrow> track \<times> rat" where
  "bestMatch query first tracks =
     foldl (\<lambda>(bestTrack, bestScore) t.
              if scoreOf query t > bestScore then (t, scoreOf query t)
              else (bestTrack, bestScore))
           (first, -1) tracks"

text \<open>\<^verbatim>\<open>tracks.reduce\<close> without an initial value.\<close>

definition mostPopularOf :: "track \<Rightarrow> track list \<Rightarrow> track" where
  "mostPopularOf first rest =
     foldl (\<lambda>prev current. if popularity current > popularity prev then current else prev)
           first rest"

record api_result =
  a_title :: string
  a_artist :: string
  a_trackId :: string
  a_spotifyUrl :: string
  a_popularity :: int
  a_confidence :: string

definition resultOf :: "track \<Rightarrow> string \<Rightarrow> api_result" where
  "resultOf t confidence =
     \<lparr>a_title = toLowerCase (name t),
      a_artist = toLowerCase (case artists t of [] \<Rightarrow> [] | a # _ \<Rightarrow> a),
      a_trackId = track_id t,
      a_spotifyUrl = spotify_url t,
      a_popularity = popularity t,
      a_confidence = confidence\<rparr>"

text \<open>The choice among a non-empty list of candidates that all have an artist.\<close>

definition chooseTrack :: "string \<Rightarrow> track \<Rightarrow> track list \<Rightarrow> api_result" where
  "chooseTrack query first rest =
     (let (t, bestScore) = bestMatch query first (first # rest);
          mostPopular = mostPopularOf first rest
      in if popularity t < 30 \<and> bestScore < 40 \<and> popularity mostPopular \<ge> 60
         then resultOf mostPopular ''medium''
         else resultOf t (if bestScore > 50 then ''high'' else ''medium''))"

text \<open>
  The token comes from \<^verbatim>\<open>getAccessToken\<close> and the reply from \<^verbatim>\<open>fetch\<close>; both
  outcomes are arguments. A reply carries \<^verbatim>\<open>response.ok\<close> and, when the JSON has
  \<^verbatim>\<open>tracks.items\<close>, that list. Every exception in the body is caught and gives null.
\<close>

datatype fetch_reply = FetchFailure | FetchResponse bool "track list option"

definition searchSpotifyAPI :: "(js_error + string) \<Rightarrow> fetch_reply \<Rightarrow> string \<Rightarrow> api_result option" where
  "searchSpotifyAPI token reply query =
     (case token of
        Inl err \<Rightarrow> None
      | Inr tok \<Rightarrow>
          (case reply of
             FetchFailure \<Rightarrow> None
           | FetchResponse ok items \<Rightarrow>
               if \<not> ok then None
               else
                 (case items of
                    None \<Rightarrow> None
                  | Some [] \<Rightarrow> None
                  | Some (first # rest) \<Rightarrow>
                      if list_ex (\<lambda>t. artists t = []) (first # rest) then None
                      else Some (chooseTrack query first rest))))"

section \<open>Predicates used in the statements\<close>

text \<open>A slug: lower-case letters, digits and single hyphens, with no hyphen at either end
  (the empty string included).\<close>

definition slugChar :: "char \<Rightarrow> bool" where
  "slugChar c = (isLowerAlpha c \<or> isDigit c \<or> c = CHR ''-'')"

fun noDoubleHyphen :: "string \<Rightarrow> bool" where
  "noDoubleHyphen [] = True"
| "noDoubleHyphen [c] = True"
| "noDoubleHyphen (c # d # ds) = (\<not> (c = CHR ''-'' \<and> d = CHR ''-'') \<and> noDoubleHyphen (d # ds))"

definition isSlug :: "string \<Rightarrow> bool" where
  "isSlug s = (list_all slugChar s \<and> noDoubleHyphen s \<and>
               (s = [] \<or> (hd s \<noteq> CHR ''-'' \<and> last s \<noteq> CHR ''-'')))"

text \<open>The first value a function finds in a list.\<close>

definition firstSome :: "('a \<Rightarrow> 'b option) \<Rightarrow> 'a list \<Rightarrow> 'b option" where
  "firstSome f xs = (case List.map_filter f xs of [] \<Rightarrow> None | v # _ \<Rightarrow> Some v)"

text \<open>The tempo an element offers when only its own text is looked at: the trimmed text
  is a bare integer between 40 and 240.\<close>

definition bareTempo :: "dd_elem \<Rightarrow> nat option" where
  "bareTempo elem =
     (let t = trim (dd_text elem) in
      if isBareInteger t \<and> 40 \<le> parseInt t \<and> parseInt t \<le> 240 then Some (parseInt t) else None)"

text \<open>The tempo an element offers when its label is looked at as well: the trimmed text
  is an integer of one to three digits between 40 and 240, and the label contains
  \<^verbatim>\<open>tempo\<close> or \<^verbatim>\<open>bpm\<close>.\<close>

definition tempoOf :: "dd_elem \<Rightarrow> nat option" where
  "tempoOf elem =
     (let t = trim (dd_text elem) in
      if 1 \<le> length t \<and> length t \<le> 3 \<and> list_all isDigit t
         \<and> (str_includes (labelOf elem) ''tempo'' \<or> str_includes (labelOf elem) ''bpm'')
         \<and> 40 \<le> parseInt t \<and> parseInt t \<le> 240
      then Some (parseInt t) else None)"

definition labelledTempo :: "dd_elem \<Rightarrow> nat option" where
  "labelledTempo elem = (if dd_card elem then tempoOf elem else None)"

definition inRange :: "nat option \<Rightarrow> bool" where
  "inRange v = (case v of None \<Rightarrow> True | Some b \<Rightarrow> 40 \<le> b \<and> b \<le> 240)"

text \<open>The tempo in what the Express parser returns; a throw carries none.\<close>

definition parsedBpm :: "string + (nat \<times> string option) \<Rightarrow> nat option" where
  "parsedBpm r = (case r of Inl _ \<Rightarrow> None | Inr (b, _) \<Rightarrow> Some b)"

text \<open>A page whose first value is labelled as a duration and whose second is the tempo.\<close>

definition unlabelledPage :: page where
  "unlabelledPage =
     \<lparr>dds = [\<lparr>dd_text = ''120'', dd_card = True, dd_prev_dt = Some ''Duration''\<rparr>,
              \<lparr>dd_text = ''171'', dd_card = True, dd_prev_dt = Some ''Tempo''\<rparr>],
      anchors = []\<rparr>"

text \<open>A miss of the memory tier: the key is absent, or its entry is older than the TTL.\<close>

definition fastMiss :: "env \<Rightarrow> string \<Rightarrow> world \<Rightarrow> bool" where
  "fastMiss e k w =
     (case Map_get (memoryCache w) k of
        None \<Rightarrow> True
      | Some memEntry \<Rightarrow> now e - timestamp memEntry > CACHE_TTL_MS)"

text \<open>A hit of the persistent tier: the store answers and holds a value for the key.\<close>

definition kvHit :: "env \<Rightarrow> string \<Rightarrow> world \<Rightarrow> song_info \<Rightarrow> bool" where
  "kvHit e k w d = (kvReadOk e \<and> kv_get (now e) (kvStore w) k = Some d)"

text \<open>A sequence of \<^verbatim>\<open>getCache\<close> calls, one per key, in one environment.\<close>

definition promoteAll :: "env \<Rightarrow> string list \<Rightarrow> world \<Rightarrow> world" where
  "promoteAll e ks w = foldl (\<lambda>w1 k. snd (getCache e k w1)) w ks"

text \<open>Concrete inputs: fifty distinct keys in the memory tier, and one more in the store.\<close>

definition keyNo :: "nat \<Rightarrow> string" where
  "keyNo n = replicate (Suc n) CHR ''k''"

definition someInfo :: song_info where
  "someInfo = \<lparr>bpm = Some 171, key = Some ''C Major'', genre = None\<rparr>"

definition env0 :: env where
  "env0 = \<lparr>now = 1000, http = (\<lambda>url. NetworkError), kvReadOk = True, kvWriteOk = True\<rparr>"

definition world50 :: world where
  "world50 =
     \<lparr>memoryCache = map (\<lambda>n. (keyNo n, \<lparr>data = someInfo, timestamp = 0\<rparr>)) [0..<50],
      kvStore = [(''new'', someInfo, 1800000)],
      requests = []\<rparr>"


definition directUrlOf :: "string \<Rightarrow> string \<Rightarrow> string" where
  "directUrlOf artist title =
     ''https://songbpm.com/@'' @ normalizeForUrl artist @ ''/'' @ normalizeForUrl title"





definition emptyPage :: page where
  "emptyPage = \<lparr>dds = [], anchors = []\<rparr>"

definition tempoPage :: page where
  "tempoPage =
     \<lparr>dds = [\<lparr>dd_text = ''171'', dd_card = True, dd_prev_dt = Some ''Tempo''\<rparr>,
              \<lparr>dd_text = ''C Major'', dd_card = True, dd_prev_dt = Some ''Key''\<rparr>],
      anchors = []\<rparr>"

definition world0 :: world where
  "world0 = \<lparr>memoryCache = [], kvStore = [], requests = []\<rparr>"



text \<open>The provider has the song on the direct address.\<close>

definition envFound :: env where
  "envFound =
     \<lparr>now = 1000,
      http = (\<lambda>url. if url = ''https://songbpm.com/@the-weeknd/blinding-lights''
                     then Reply 200 tempoPage else Reply 404 emptyPage),
      kvReadOk = True, kvWriteOk = True\<rparr>"


text \<open>The answer of the search handler when nothing was found.\<close>

definition notFoundResponse :: "string \<Rightarrow> search_response" where
  "notFoundResponse query =
     \<lparr>s_status = 200,
      s_body = SResults [\<lparr>r_title = query, r_artist = ''Not found'', r_trackId = [],
                          r_spotifyUrl = None, r_popularity = None,
                          r_source = ''not-found''\<rparr>]\<rparr>"

text \<open>The catalogue cannot be used: the token request or the search request fails.\<close>

definition catalogFailure :: "spotify_env \<Rightarrow> token_state \<Rightarrow> bool" where
  "catalogFailure e st =
     ((\<exists>err. fst (getSpotifyToken e st) = Inl err) \<or> searchReply e = SearchFailure)"

text \<open>The catalogue answers with an empty candidate set.\<close>

definition noCandidates :: "spotify_env \<Rightarrow> token_state \<Rightarrow> bool" where
  "noCandidates e st =
     ((\<exists>tok. fst (getSpotifyToken e st) = Inr tok) \<and> searchReply e = SearchData (Some []))"

definition searchRequest :: "string \<Rightarrow> search_request" where
  "searchRequest query = \<lparr>sreq_method = ''GET'', sreq_query = Some query\<rparr>"

definition tokens0 :: token_state where
  "tokens0 = \<lparr>cachedToken = None, tokenExpiresAt = 0\<rparr>"

text \<open>The token request is refused (wrong credentials).\<close>

definition envAuthFailure :: spotify_env where
  "envAuthFailure =
     \<lparr>s_now = 1000, clientId = Some ''id'', clientSecret = Some ''wrong'',
      tokenReply = TokenFailure, searchReply = SearchData (Some [])\<rparr>"

text \<open>The catalogue grants a token and finds no track.\<close>

definition envNoTracks :: spotify_env where
  "envNoTracks =
     \<lparr>s_now = 1000, clientId = Some ''id'', clientSecret = Some ''secret'',
      tokenReply = TokenGranted ''token'' (Some 3600), searchReply = SearchData (Some [])\<rparr>"

text \<open>\<open>t\<close> is the first element of \<open>xs\<close> at which \<open>f\<close> is greatest: everything before it
  is strictly smaller, nothing after it is greater.\<close>

definition isFirstMax :: "('a \<Rightarrow> 'b::linorder) \<Rightarrow> 'a \<Rightarrow> 'a list \<Rightarrow> bool" where
  "isFirstMax f t xs =
     (\<exists>pre post. xs = pre @ t # post
        \<and> list_all (\<lambda>u. f u < f t) pre \<and> list_all (\<lambda>u. f u \<le> f t) post)"

text \<open>Two candidates whose titles share no word with the query \<^verbatim>\<open>qq\<close>.\<close>

definition trackAlpha :: track where
  "trackAlpha =
     \<lparr>name = ''Alpha Beta Gamma'', artists = [''First''], track_id = ''t0'',
      spotify_url = ''https://open.spotify.com/track/t0'', popularity = 0\<rparr>"

definition trackDelta :: track where
  "trackDelta =
     \<lparr>name = ''Delta Echo'', artists = [''Second''], track_id = ''t1'',
      spotify_url = ''https://open.spotify.com/track/t1'', popularity = 0\<rparr>"

text \<open>The scenario of the specification: the best-scored track has popularity 5 and score
  20, and another candidate has popularity 85.\<close>

definition trackObscure :: track where
  "trackObscure =
     \<lparr>name = ''Nights Rio Janeiro'', artists = [''Nights Band''], track_id = ''t2'',
      spotify_url = ''https://open.spotify.com/track/t2'', popularity = 5\<rparr>"

definition trackHit :: track where
  "trackHit =
     \<lparr>name = ''Summer Love Forever Together'', artists = [''Star''], track_id = ''t3'',
      spotify_url = ''https://open.spotify.com/track/t3'', popularity = 85\<rparr>"

text \<open>Every tempo held in either cache tier is null or between 40 and 240.\<close>

definition cacheInRange :: "world \<Rightarrow> bool" where
  "cacheInRange w =
     (list_all (\<lambda>(k, memEntry). inRange (bpm (data memEntry))) (memoryCache w)
      \<and> list_all (\<lambda>(k, d, deadline). inRange (bpm d)) (kvStore w))"

text \<open>The provider has every song on its direct address, and the persistent store
  refuses writes.\<close>

definition envStoreDown :: env where
  "envStoreDown =
     \<lparr>now = 1000, http = (\<lambda>url. Reply 200 tempoPage), kvReadOk = True, kvWriteOk = False\<rparr>"

text \<open>A memory tier at its bound, in which the entry of one song, written at 1000, is
  the oldest; the persistent store holds nothing.\<close>

definition worldFull :: world where
  "worldFull =
     \<lparr>memoryCache =
        (getCacheKey ''The Weeknd'' ''Blinding Lights'', \<lparr>data = someInfo, timestamp = 1000\<rparr>)
        # map (\<lambda>n. (keyNo n, \<lparr>data = someInfo, timestamp = 1000\<rparr>)) [0..<49],
      kvStore = [], requests = []\<rparr>"

section \<open>Verified properties: the slug normaliser\<close>

lemma slugChar_not_space: "slugChar c \<Longrightarrow> \<not> isSpace c"
  by (auto simp: slugChar_def isSpace_def isLowerAlpha_def isDigit_def code_def)

lemma slugChar_kept: "slugChar c \<Longrightarrow> keptChar c"
  by (auto simp: slugChar_def keptChar_def)

lemma slugChar_lower: "slugChar c \<Longrightarrow> toLowerChar c = c"
  by (auto simp: slugChar_def toLowerChar_def isLowerAlpha_def isDigit_def code_def)

lemma slugChar_not_paren: "slugChar c \<Longrightarrow> c \<noteq> CHR ''(''"
  by (auto simp: slugChar_def isLowerAlpha_def isDigit_def code_def)

lemma spacesToHyphen_slugChars:
  "list_all keptChar s \<Longrightarrow> list_all slugChar (spacesToHyphen s)"
  by (induction s rule: spacesToHyphen.induct) (auto simp: keptChar_def slugChar_def)

lemma collapseHyphens_slugChars:
  "list_all slugChar s \<Longrightarrow> list_all slugChar (collapseHyphens s)"
  by (induction s rule: collapseHyphens.induct) auto

lemma collapseHyphens_hd: "\<exists>r. collapseHyphens (c # cs) = c # r"
  by (induction cs arbitrary: c) auto

lemma collapseHyphens_noDouble: "noDoubleHyphen (collapseHyphens s)"
proof (induction s rule: collapseHyphens.induct)
  case (3 c d ds)
  obtain r where r: "collapseHyphens (d # ds) = d # r"
    using collapseHyphens_hd by blast
  with 3 show ?case by auto
qed simp_all

lemma noDouble_collapse: "noDoubleHyphen s \<Longrightarrow> collapseHyphens s = s"
  by (induction s rule: collapseHyphens.induct) auto

lemma noDouble_tl: "noDoubleHyphen (c # cs) \<Longrightarrow> noDoubleHyphen cs"
  by (cases cs) auto

lemma noDouble_butlast: "noDoubleHyphen s \<Longrightarrow> noDoubleHyphen (butlast s)"
  by (induction s rule: noDoubleHyphen.induct) (auto split: if_splits)

lemma noDouble_butlast_last:
  "noDoubleHyphen s \<Longrightarrow> s \<noteq> [] \<Longrightarrow> last s = CHR ''-'' \<Longrightarrow> butlast s \<noteq> []
   \<Longrightarrow> last (butlast s) \<noteq> CHR ''-''"
  by (induction s rule: noDoubleHyphen.induct) (auto split: if_splits)

lemma stripEdgeHyphens_isSlug:
  assumes "list_all slugChar s" and "noDoubleHyphen s"
  shows "isSlug (stripEdgeHyphens s)"
proof -
  let ?t = "stripLeadingHyphen s"
  have t1: "list_all slugChar ?t"
    using assms(1) by (cases s) (auto simp: stripLeadingHyphen_def)
  have t2: "noDoubleHyphen ?t"
    using assms(2) by (cases s) (auto simp: stripLeadingHyphen_def dest: noDouble_tl)
  have t3: "?t = [] \<or> hd ?t \<noteq> CHR ''-''"
  proof (cases s)
    case Nil
    then show ?thesis by (simp add: stripLeadingHyphen_def)
  next
    case (Cons c cs)
    with assms(2) show ?thesis
      by (cases cs) (auto simp: stripLeadingHyphen_def)
  qed
  let ?u = "stripTrailingHyphen ?t"
  have u1: "list_all slugChar ?u"
    using t1 by (auto simp: stripTrailingHyphen_def list_all_iff dest: in_set_butlastD)
  have u2: "noDoubleHyphen ?u"
    using t2 by (auto simp: stripTrailingHyphen_def noDouble_butlast)
  have u3: "?u = [] \<or> last ?u \<noteq> CHR ''-''"
    using t2 noDouble_butlast_last [of ?t] by (auto simp: stripTrailingHyphen_def)
  have u4: "?u = [] \<or> hd ?u \<noteq> CHR ''-''"
    using t3 by (cases ?t) (auto simp: stripTrailingHyphen_def)
  show ?thesis
    unfolding isSlug_def stripEdgeHyphens_def using u1 u2 u3 u4 by blast
qed

text \<open>Every output of the normaliser is a slug.\<close>

lemma normalizeForUrl_isSlug: "isSlug (normalizeForUrl txt)"
proof -
  let ?a = "removeSpecial (stripParen ''(ft'' (stripParen ''(feat'' (trim (toLowerCase txt))))"
  have "list_all keptChar ?a"
    by (simp add: removeSpecial_def list_all_iff)
  then have "list_all slugChar (collapseHyphens (spacesToHyphen ?a))"
    by (intro collapseHyphens_slugChars spacesToHyphen_slugChars)
  then show ?thesis
    unfolding normalizeForUrl_def
    by (intro stripEdgeHyphens_isSlug collapseHyphens_noDouble)
qed

lemma stripParen_no_open:
  "tag \<noteq> [] \<Longrightarrow> hd tag \<notin> set s \<Longrightarrow> stripParen tag s = s"
  by (induction s) (auto simp: prefix_def neq_Nil_conv)

lemma spacesToHyphen_no_space:
  "list_all (\<lambda>c. \<not> isSpace c) s \<Longrightarrow> spacesToHyphen s = s"
  by (induction s rule: spacesToHyphen.induct) auto

lemma trim_no_edge_space:
  "s = [] \<or> (\<not> isSpace (hd s) \<and> \<not> isSpace (last s)) \<Longrightarrow> trim s = s"
proof (cases s)
  case Nil
  then show ?thesis by (simp add: trim_def)
next
  case (Cons c cs)
  assume "s = [] \<or> (\<not> isSpace (hd s) \<and> \<not> isSpace (last s))"
  with Cons have h: "\<not> isSpace c" and l: "\<not> isSpace (last s)" by auto
  from h Cons have 1: "dropWhile isSpace s = s" by simp
  from l Cons have 2: "dropWhile isSpace (rev s) = rev s"
    by (cases "rev s") (auto simp: last_rev hd_rev [symmetric])
  show ?thesis by (simp add: trim_def 1 2)
qed

text \<open>Every slug is left as it is by the normaliser.\<close>

lemma isSlug_fixed: "isSlug s \<Longrightarrow> normalizeForUrl s = s"
proof -
  assume s: "isSlug s"
  then have chars: "list_all slugChar s" and nd: "noDoubleHyphen s"
    and edge: "s = [] \<or> (hd s \<noteq> CHR ''-'' \<and> last s \<noteq> CHR ''-'')"
    by (auto simp: isSlug_def)
  have 1: "toLowerCase s = s"
    using chars by (auto simp: toLowerCase_def list_all_iff slugChar_lower intro: map_idI)
  have "s = [] \<or> (slugChar (hd s) \<and> slugChar (last s))"
    using chars by (cases s) (auto simp: list_all_iff)
  then have 2: "trim s = s"
    by (intro trim_no_edge_space) (auto dest: slugChar_not_space)
  have np: "CHR ''('' \<notin> set s"
    using chars slugChar_not_paren by (auto simp: list_all_iff)
  have 3: "stripParen ''(feat'' s = s" and 4: "stripParen ''(ft'' s = s"
    using np by (simp_all add: stripParen_no_open)
  have 5: "removeSpecial s = s"
    using chars by (auto simp: removeSpecial_def list_all_iff slugChar_kept)
  have 6: "spacesToHyphen s = s"
    using chars
    by (intro spacesToHyphen_no_space) (auto simp: list_all_iff dest: slugChar_not_space)
  have 7: "collapseHyphens s = s"
    using nd by (rule noDouble_collapse)
  have 8: "stripEdgeHyphens s = s"
    using edge
    by (cases s) (auto simp: stripEdgeHyphens_def stripLeadingHyphen_def stripTrailingHyphen_def)
  show ?thesis
    by (simp add: normalizeForUrl_def 1 2 3 4 5 6 7 8)
qed

text \<open>
  Claim C9. The slug normaliser is idempotent: for every input text, applying
  \<^verbatim>\<open>normalizeForUrl\<close> to its own output returns that output unchanged.
\<close>

theorem normalizeForUrl_idempotent:
  "normalizeForUrl (normalizeForUrl txt) = normalizeForUrl txt"
  by (rule isSlug_fixed [OF normalizeForUrl_isSlug])

theorem normalizeForUrl_idempotent_witness:
  "normalizeForUrl (normalizeForUrl ''The Weeknd (feat. Daft Punk)'')
   = normalizeForUrl ''The Weeknd (feat. Daft Punk)''"
  by (rule normalizeForUrl_idempotent)

text \<open>
  The claim is about \<^verbatim>\<open>normalizeForUrl\<close>. The slug helper of the Express scraper is
  not idempotent: a special character can hide a tag that the next pass removes.
\<close>

lemma createSlug_not_idempotent:
  "createSlug ''f!t'' = ''ft'' \<and> createSlug (createSlug ''f!t'') = []"
  by code_simp

section \<open>Verified properties: the two extractors\<close>

lemma firstSome_Nil [simp]: "firstSome f [] = None"
  by (simp add: firstSome_def List.map_filter_simps)

lemma firstSome_Cons [simp]:
  "firstSome f (x # xs) = (case f x of None \<Rightarrow> firstSome f xs | Some v \<Rightarrow> Some v)"
  by (simp add: firstSome_def List.map_filter_simps split: option.splits)

lemma digits_no_colon: "list_all isDigit t \<Longrightarrow> \<not> str_includes t '':''"
  by (induction t) (auto simp: isDigit_def code_def)

lemma trim_edges: "trim s = [] \<or> (\<not> isSpace (hd (trim s)) \<and> \<not> isSpace (last (trim s)))"
proof -
  let ?a = "dropWhile isSpace s"
  let ?b = "dropWhile isSpace (rev ?a)"
  have t: "trim s = rev ?b" by (simp add: trim_def)
  show ?thesis
  proof (cases "?b = []")
    case True
    then show ?thesis by (simp add: t)
  next
    case False
    then have hb: "\<not> isSpace (hd ?b)"
      by (metis hd_dropWhile)
    have "rev ?a = takeWhile isSpace (rev ?a) @ ?b" by simp
    then have "?a = rev ?b @ rev (takeWhile isSpace (rev ?a))"
      by (metis rev_append rev_rev_ident)
    then have "hd ?a = hd (rev ?b)"
      using False by (metis hd_append2 rev_is_Nil_conv)
    moreover have "?a \<noteq> []" using False by (cases ?a) simp_all
    then have "\<not> isSpace (hd ?a)" by (metis hd_dropWhile)
    ultimately have "\<not> isSpace (hd (rev ?b))" by simp
    moreover have "last (rev ?b) = hd ?b" using False by (simp add: last_rev)
    ultimately show ?thesis using hb by (simp add: t)
  qed
qed

lemma trim_trim [simp]: "trim (trim s) = trim s"
  by (rule trim_no_edge_space) (rule trim_edges)

lemma extractStep_bpm:
  "bpm (extractStep r elem) =
     (if truthyNum (bpm r) then bpm r
      else case bareTempo elem of None \<Rightarrow> bpm r | Some v \<Rightarrow> Some v)"
  by (auto simp: extractStep_def bareTempo_def Let_def isBareInteger_def digits_no_colon)

lemma extract_fold_set:
  "truthyNum (bpm r) \<Longrightarrow> bpm (foldl extractStep r es) = bpm r"
  by (induction es arbitrary: r) (auto simp: extractStep_bpm)

lemma bareTempo_truthy: "bareTempo elem = Some v \<Longrightarrow> truthyNum (Some v) \<and> 40 \<le> v \<and> v \<le> 240"
  by (auto simp: bareTempo_def Let_def truthyNum_def split: if_splits)

lemma extract_fold_unset:
  "bpm r = None \<Longrightarrow> bpm (foldl extractStep r es) = firstSome bareTempo es"
proof (induction es arbitrary: r)
  case Nil
  then show ?case by simp
next
  case (Cons e es)
  show ?case
  proof (cases "bareTempo e")
    case None
    with Cons.prems have "bpm (extractStep r e) = None"
      by (simp add: extractStep_bpm truthyNum_def)
    then show ?thesis using Cons.IH None by simp
  next
    case (Some v)
    with Cons.prems have "bpm (extractStep r e) = Some v"
      by (simp add: extractStep_bpm truthyNum_def)
    moreover have "truthyNum (Some v)" using Some bareTempo_truthy by blast
    ultimately show ?thesis using Some by (simp add: extract_fold_set)
  qed
qed

lemma extractSongInfo_bpm: "bpm (extractSongInfo html) = firstSome bareTempo (dds html)"
  by (simp add: extractSongInfo_def extract_fold_unset nullInfo_def)

lemma firstSome_range:
  "(\<And>x v. f x = Some v \<Longrightarrow> 40 \<le> v \<and> v \<le> 240) \<Longrightarrow> inRange (firstSome f xs)"
  by (induction xs) (auto simp: inRange_def split: option.splits)

lemma firstSome_filter:
  "firstSome f (filter P xs) = firstSome (\<lambda>x. if P x then f x else None) xs"
  by (induction xs) (auto split: option.splits)

lemma numberMatch_trim:
  "numberMatch (trim t) =
     (if 1 \<le> length (trim t) \<and> length (trim t) \<le> 3 \<and> list_all isDigit (trim t)
      then Some (trim t) else None)"
  by (simp add: numberMatch_def Let_def)

lemma scrapeLoop_fst:
  "fst (scrapeLoop es (b, k)) = (case firstSome tempoOf es of None \<Rightarrow> b | Some v \<Rightarrow> Some v)"
proof (induction es arbitrary: b k)
  case Nil
  then show ?case by simp
next
  case (Cons elem rest)
  show ?case
    by (auto simp: numberMatch_trim tempoOf_def Let_def Cons.IH split: option.splits)
qed

lemma tempoOf_range: "tempoOf elem = Some v \<Longrightarrow> 40 \<le> v \<and> v \<le> 240"
  by (auto simp: tempoOf_def Let_def split: if_splits)

lemma scrapeSongBPM_parse_bpm:
  "parsedBpm (scrapeSongBPM_parse html) = firstSome labelledTempo (dds html)"
proof -
  obtain b0 k where bk: "scrapeLoop (filter dd_card (dds html)) (None, None) = (b0, k)"
    by (cases "scrapeLoop (filter dd_card (dds html)) (None, None)")
  have "b0 = fst (scrapeLoop (filter dd_card (dds html)) (None, None))"
    by (simp add: bk)
  then have b0: "b0 = firstSome tempoOf (filter dd_card (dds html))"
    by (simp add: scrapeLoop_fst split: option.splits)
  have r: "inRange b0"
    unfolding b0 by (rule firstSome_range) (rule tempoOf_range)
  have f: "firstSome tempoOf (filter dd_card (dds html)) = firstSome labelledTempo (dds html)"
    by (simp add: firstSome_filter labelledTempo_def [abs_def])
  show ?thesis
  proof (cases b0)
    case None
    then show ?thesis
      using b0 f by (simp add: scrapeSongBPM_parse_def bk parsedBpm_def)
  next
    case (Some v)
    with r have "40 \<le> v" "v \<le> 240" by (simp_all add: inRange_def)
    then show ?thesis
      using Some b0 f by (simp add: scrapeSongBPM_parse_def bk parsedBpm_def)
  qed
qed

text \<open>Neither extractor returns a tempo outside the range.\<close>

lemma extractSongInfo_inRange: "inRange (bpm (extractSongInfo html))"
  unfolding extractSongInfo_bpm
  by (rule firstSome_range) (use bareTempo_truthy in blast)

lemma scrapeSongBPM_parse_inRange: "inRange (parsedBpm (scrapeSongBPM_parse html))"
  unfolding scrapeSongBPM_parse_bpm
  by (rule firstSome_range) (auto simp: labelledTempo_def dest: tempoOf_range split: if_splits)

text \<open>
  Claim C3, as stated, fails on \<^verbatim>\<open>extractSongInfo\<close>: it never reads a label. On a
  page whose first value is 120 under the label Duration and whose second is 171 under
  the label Tempo, it takes 120.
\<close>

theorem extractSongInfo_ignores_label:
  "bpm (extractSongInfo unlabelledPage) = Some 120
   \<and> map labelOf (dds unlabelledPage) = [''duration'', ''tempo'']
   \<and> \<not> str_includes ''duration'' ''tempo''
   \<and> \<not> str_includes ''duration'' ''bpm''"
  by code_simp

text \<open>
  Claim C3, amended. \<^verbatim>\<open>extractSongInfo\<close> takes as \<^verbatim>\<open>bpm\<close> the first \<^verbatim>\<open>dd\<close> value
  whose trimmed text is a bare integer between 40 and 240, whatever its label; the Express
  parser \<^verbatim>\<open>scrapeSongBPM\<close> takes the first \<^verbatim>\<open>dd.text-card-foreground\<close> value that is an
  integer of one to three digits between 40 and 240 and whose preceding label contains
  \<^verbatim>\<open>tempo\<close> or \<^verbatim>\<open>bpm\<close>. In both the first such value wins and is never overwritten.
\<close>

theorem bpm_first_match:
  "bpm (extractSongInfo html) = firstSome bareTempo (dds html)
   \<and> parsedBpm (scrapeSongBPM_parse html) = firstSome labelledTempo (dds html)"
  by (simp add: extractSongInfo_bpm scrapeSongBPM_parse_bpm)

theorem bpm_first_match_witness:
  "bpm (extractSongInfo unlabelledPage) = firstSome bareTempo (dds unlabelledPage)
   \<and> parsedBpm (scrapeSongBPM_parse unlabelledPage) = firstSome labelledTempo (dds unlabelledPage)"
  by (rule bpm_first_match)

section \<open>Verified properties: the hybrid cache\<close>

lemma Map_get_set: "Map_get (Map_set k v m) k' = (if k' = k then Some v else Map_get m k')"
  by (simp add: Map_get_def Map_set_def update_conv')

lemma Map_get_delete: "Map_get (Map_delete k m) k' = (if k' = k then None else Map_get m k')"
  by (simp add: Map_get_def Map_delete_def delete_conv')

lemma Map_get_memoryStore:
  "Map_get (memoryStore bound t k d m) k = Some \<lparr>data = d, timestamp = t\<rparr>"
  by (simp add: memoryStore_def Let_def Map_get_set)

lemma memoryCache_setCache:
  "memoryCache (setCache e k d w) = memoryStore MAX_MEMORY_CACHE_SIZE (now e) k d (memoryCache w)"
  by (simp add: setCache_def Let_def)

lemma getCache_after_setCache:
  "now e2 - now e1 \<le> CACHE_TTL_MS \<Longrightarrow>
   getCache e2 k (setCache e1 k d w) = (Some (d, ''memory''), setCache e1 k d w)"
  by (simp add: getCache_def memoryCache_setCache Map_get_memoryStore Let_def)

text \<open>
  Claim C5. For every key and value, \<^verbatim>\<open>setCache(k, v)\<close> followed by
  \<^verbatim>\<open>getCache(k)\<close> returns \<open>v\<close> from the memory tier (and leaves the state as it is), as
  long as no more than the TTL lies between the two calls; whether the persistent store
  answers does not matter.
\<close>

theorem read_your_writes:
  "now e2 - now e1 \<le> CACHE_TTL_MS \<Longrightarrow>
   getCache e2 k (setCache e1 k d w) = (Some (d, ''memory''), setCache e1 k d w)"
  by (rule getCache_after_setCache)

theorem read_your_writes_witness:
  "now (env0\<lparr>now := 1801000\<rparr>) - now env0 \<le> CACHE_TTL_MS
   \<and> getCache (env0\<lparr>now := 1801000\<rparr>) ''song:a:b'' (setCache env0 ''song:a:b'' someInfo world50)
     = (Some (someInfo, ''memory''), setCache env0 ''song:a:b'' someInfo world50)"
proof -
  have h: "now (env0\<lparr>now := 1801000\<rparr>) - now env0 \<le> CACHE_TTL_MS"
    by (simp add: env0_def CACHE_TTL_MS_def CACHE_TTL_SECONDS_def)
  from h read_your_writes [OF h] show ?thesis by blast
qed

lemma Map_delete_hd:
  "distinct (Map_keys ((k0, v0) # rest)) \<Longrightarrow> Map_delete k0 ((k0, v0) # rest) = rest"
proof -
  assume "distinct (Map_keys ((k0, v0) # rest))"
  then have "k0 \<notin> fst ` set rest" by (simp add: Map_keys_def)
  then have "AList.delete k0 rest = rest"
    by (induction rest) auto
  then show ?thesis by (simp add: Map_delete_def)
qed

lemma Map_keys_set:
  "Map_keys (Map_set k v m) = (if k \<in> set (Map_keys m) then Map_keys m else Map_keys m @ [k])"
  by (simp add: Map_keys_def Map_set_def update_keys)

lemma memoryStore_full:
  assumes "distinct (Map_keys m)" and "Map_size m \<ge> bound" and "bound > 0"
  shows "\<exists>oldest rest. m = oldest # rest
           \<and> memoryStore bound t k d m = Map_set k \<lparr>data = d, timestamp = t\<rparr> rest"
proof -
  from assms(2,3) obtain k0 v0 rest where m: "m = (k0, v0) # rest"
    by (cases m) (auto simp: Map_size_def)
  have "Map_delete k0 m = rest"
    using assms(1) unfolding m by (rule Map_delete_hd)
  then have "memoryStore bound t k d m = Map_set k \<lparr>data = d, timestamp = t\<rparr> rest"
    using assms(2) by (simp add: memoryStore_def m Map_keys_def)
  with m show ?thesis by blast
qed


text \<open>A read served by the memory tier changes nothing, the order of the map included.\<close>

lemma getCache_memory_hit:
  "fst (getCache e k w) = Some (d, ''memory'') \<Longrightarrow> snd (getCache e k w) = w"
  by (auto simp: getCache_def Let_def split: option.splits if_splits)

text \<open>The keys of the map stay distinct under both cache operations.\<close>

lemma distinct_memoryStore:
  "distinct (Map_keys m) \<Longrightarrow> distinct (Map_keys (memoryStore bound t k d m))"
  by (auto simp: memoryStore_def Map_keys_def Map_set_def Map_delete_def Let_def
      distinct_update distinct_delete split: list.splits)

lemma distinct_setCache:
  "distinct (Map_keys (memoryCache w)) \<Longrightarrow> distinct (Map_keys (memoryCache (setCache e k d w)))"
  by (simp add: memoryCache_setCache distinct_memoryStore)

lemma distinct_getCache:
  "distinct (Map_keys (memoryCache w)) \<Longrightarrow> distinct (Map_keys (memoryCache (snd (getCache e k w))))"
  by (auto simp: getCache_def Map_keys_def Map_set_def Map_delete_def Let_def
      distinct_update distinct_delete split: option.splits)

text \<open>
  Claim C6. Whenever \<^verbatim>\<open>setCache\<close> is called while the memory tier holds 50 entries or
  more, exactly one entry is evicted before the insertion, and it is the first entry of
  the map's insertion order: the tier afterwards is the rest of the map, in its order,
  with the key set in it (replaced in place when present, appended otherwise). No read
  moves an entry, so this is insertion order and not access order. With a bound of 2,
  storing three distinct keys A, B, C in this order leaves exactly B and C.
\<close>

theorem setCache_evicts_oldest:
  assumes "distinct (Map_keys (memoryCache w))"
    and "Map_size (memoryCache w) \<ge> MAX_MEMORY_CACHE_SIZE"
  shows "(\<exists>oldest rest. memoryCache w = oldest # rest
            \<and> memoryCache (setCache e k d w) = Map_set k \<lparr>data = d, timestamp = now e\<rparr> rest
            \<and> Map_keys (memoryCache (setCache e k d w))
                = (if k \<in> set (Map_keys rest) then Map_keys rest else Map_keys rest @ [k]))
         \<and> (fst (getCache e' k' w) = Some (d', ''memory'') \<longrightarrow> snd (getCache e' k' w) = w)
         \<and> (a \<noteq> b \<and> a \<noteq> c \<and> b \<noteq> c \<longrightarrow>
              Map_keys (memoryStore 2 t3 c d3 (memoryStore 2 t2 b d2 (memoryStore 2 t1 a d1 [])))
                = [b, c])"
proof
  have "0 < MAX_MEMORY_CACHE_SIZE" by (simp add: MAX_MEMORY_CACHE_SIZE_def)
  from memoryStore_full [OF assms this]
  obtain oldest rest where m: "memoryCache w = oldest # rest"
    and s: "memoryStore MAX_MEMORY_CACHE_SIZE (now e) k d (memoryCache w)
              = Map_set k \<lparr>data = d, timestamp = now e\<rparr> rest"
    by blast
  show "\<exists>oldest rest. memoryCache w = oldest # rest
            \<and> memoryCache (setCache e k d w) = Map_set k \<lparr>data = d, timestamp = now e\<rparr> rest
            \<and> Map_keys (memoryCache (setCache e k d w))
                = (if k \<in> set (Map_keys rest) then Map_keys rest else Map_keys rest @ [k])"
    using m s by (simp add: memoryCache_setCache Map_keys_set)
next
  have "a \<noteq> b \<and> a \<noteq> c \<and> b \<noteq> c \<longrightarrow>
          Map_keys (memoryStore 2 t3 c d3 (memoryStore 2 t2 b d2 (memoryStore 2 t1 a d1 [])))
            = [b, c]"
    by (simp add: memoryStore_def Map_size_def Map_keys_def Map_set_def Map_delete_def
        AList.delete_eq)
  then show "(fst (getCache e' k' w) = Some (d', ''memory'') \<longrightarrow> snd (getCache e' k' w) = w)
             \<and> (a \<noteq> b \<and> a \<noteq> c \<and> b \<noteq> c \<longrightarrow>
                  Map_keys (memoryStore 2 t3 c d3 (memoryStore 2 t2 b d2 (memoryStore 2 t1 a d1 [])))
                    = [b, c])"
    using getCache_memory_hit by blast
qed

lemma keyNo_inj: "keyNo n = keyNo m \<Longrightarrow> n = m"
proof -
  assume "keyNo n = keyNo m"
  then have "length (keyNo n) = length (keyNo m)" by simp
  then show ?thesis by (simp add: keyNo_def)
qed

lemma world50_keys: "Map_keys (memoryCache world50) = map keyNo [0..<50]"
  by (simp add: world50_def Map_keys_def comp_def)

lemma world50_distinct: "distinct (Map_keys (memoryCache world50))"
  unfolding world50_keys
  by (simp add: distinct_map inj_on_def) (use keyNo_inj in blast)

lemma world50_size: "Map_size (memoryCache world50) = 50"
  by (simp add: world50_def Map_size_def)

lemma new_not_keyNo: "''new'' \<noteq> keyNo n"
  by (simp add: keyNo_def)

theorem setCache_evicts_oldest_witness:
  "Map_size (memoryCache world50) = 50
   \<and> Map_keys (memoryCache world50) = map keyNo [0..<50]
   \<and> Map_keys (memoryCache (setCache env0 ''new'' someInfo world50))
       = map keyNo [1..<50] @ [''new'']
   \<and> fst (getCache env0 (keyNo 0) world50) = Some (someInfo, ''memory'')
   \<and> snd (getCache env0 (keyNo 0) world50) = world50
   \<and> Map_keys (memoryStore 2 3 ''C'' someInfo (memoryStore 2 2 ''B'' someInfo
         (memoryStore 2 1 ''A'' someInfo []))) = [''B'', ''C'']"
proof -
  have h: "Map_size (memoryCache world50) \<ge> MAX_MEMORY_CACHE_SIZE"
    by (simp add: world50_size MAX_MEMORY_CACHE_SIZE_def)
  have ne: "''A'' \<noteq> ''B'' \<and> ''A'' \<noteq> ''C'' \<and> ''B'' \<noteq> ''C''" by simp
  have m: "memoryCache world50
          = (keyNo 0, \<lparr>data = someInfo, timestamp = 0\<rparr>)
            # map (\<lambda>n. (keyNo n, \<lparr>data = someInfo, timestamp = 0\<rparr>)) [1..<50]"
    by (simp add: world50_def upt_conv_Cons)
  then have "Map_get (memoryCache world50) (keyNo 0) = Some \<lparr>data = someInfo, timestamp = 0\<rparr>"
    by (simp add: Map_get_def)
  then have hit: "fst (getCache env0 (keyNo 0) world50) = Some (someInfo, ''memory'')"
    by (simp add: getCache_def env0_def CACHE_TTL_MS_def CACHE_TTL_SECONDS_def)
  note t = setCache_evicts_oldest [OF world50_distinct h,
      where e = env0 and k = "''new''" and d = someInfo and e' = env0 and k' = "keyNo 0"
        and d' = someInfo and a = "''A''" and b = "''B''" and c = "''C''"
        and ?t1.0 = 1 and ?t2.0 = 2 and ?t3.0 = 3
        and ?d1.0 = someInfo and ?d2.0 = someInfo and ?d3.0 = someInfo]
  from t obtain oldest rest where r: "memoryCache world50 = oldest # rest"
    and k: "Map_keys (memoryCache (setCache env0 ''new'' someInfo world50))
              = (if ''new'' \<in> set (Map_keys rest) then Map_keys rest else Map_keys rest @ [''new''])"
    by blast
  from r m have "rest = map (\<lambda>n. (keyNo n, \<lparr>data = someInfo, timestamp = 0\<rparr>)) [1..<50]"
    by simp
  then have rest: "Map_keys rest = map keyNo [1..<50]"
    by (simp add: Map_keys_def comp_def)
  have "''new'' \<notin> set (map keyNo [1..<50])"
    using new_not_keyNo by auto
  with k rest
  have 1: "Map_keys (memoryCache (setCache env0 ''new'' someInfo world50))
             = map keyNo [1..<50] @ [''new'']"
    by simp
  from t ne hit
  have 2: "snd (getCache env0 (keyNo 0) world50) = world50"
    and 3: "Map_keys (memoryStore 2 3 ''C'' someInfo (memoryStore 2 2 ''B'' someInfo
              (memoryStore 2 1 ''A'' someInfo []))) = [''B'', ''C'']"
    by blast+
  from 1 2 3 hit world50_size world50_keys show ?thesis by blast
qed

lemma Map_set_absent: "Map_get m k = None \<Longrightarrow> Map_set k v m = m @ [(k, v)]"
proof -
  assume "Map_get m k = None"
  then have "k \<notin> fst ` set m"
    by (simp add: Map_get_def map_of_eq_None_iff)
  then show ?thesis
    unfolding Map_set_def by (induction m) auto
qed

lemma Map_delete_absent: "Map_get m k = None \<Longrightarrow> Map_delete k m = m"
proof -
  assume "Map_get m k = None"
  then have "k \<notin> fst ` set m"
    by (simp add: Map_get_def map_of_eq_None_iff)
  then show ?thesis
    unfolding Map_delete_def by (induction m) auto
qed

lemma getCache_promotes:
  assumes "fastMiss e k w" and "kvHit e k w d"
  shows "getCache e k w =
           (Some (d, ''kv''),
            w\<lparr>memoryCache := Map_delete k (memoryCache w) @ [(k, \<lparr>data = d, timestamp = now e\<rparr>)]\<rparr>)"
proof (cases "Map_get (memoryCache w) k")
  case None
  then show ?thesis
    using assms by (simp add: getCache_def kvHit_def Map_set_absent Map_delete_absent)
next
  case (Some ent)
  have "Map_get (Map_delete k (memoryCache w)) k = None"
    by (simp add: Map_get_delete)
  then have "Map_set k \<lparr>data = d, timestamp = now e\<rparr> (Map_delete k (memoryCache w))
               = Map_delete k (memoryCache w) @ [(k, \<lparr>data = d, timestamp = now e\<rparr>)]"
    by (rule Map_set_absent)
  then show ?thesis
    using assms Some by (simp add: getCache_def kvHit_def fastMiss_def Let_def)
qed

lemma kvStore_getCache: "kvStore (snd (getCache e k w)) = kvStore w"
  by (auto simp: getCache_def Let_def split: option.splits prod.splits)

lemma promoteAll_size:
  "distinct ks \<Longrightarrow> list_all (\<lambda>k. Map_get (memoryCache w) k = None \<and> (\<exists>d. kvHit e k w d)) ks
   \<Longrightarrow> Map_size (memoryCache (promoteAll e ks w)) = Map_size (memoryCache w) + length ks"
proof (induction ks arbitrary: w)
  case Nil
  then show ?case by (simp add: promoteAll_def)
next
  case (Cons k ks)
  from Cons.prems obtain d where miss: "Map_get (memoryCache w) k = None" and hit: "kvHit e k w d"
    by auto
  let ?w1 = "snd (getCache e k w)"
  have fm: "fastMiss e k w" using miss by (simp add: fastMiss_def)
  have w1: "?w1 = w\<lparr>memoryCache := memoryCache w @ [(k, \<lparr>data = d, timestamp = now e\<rparr>)]\<rparr>"
    using getCache_promotes [OF fm hit] miss by (simp add: Map_delete_absent)
  have "list_all (\<lambda>k'. Map_get (memoryCache ?w1) k' = None \<and> (\<exists>d. kvHit e k' ?w1 d)) ks"
    using Cons.prems unfolding w1
    by (auto simp: list_all_iff kvHit_def Map_get_def)
  moreover have "distinct ks" using Cons.prems by simp
  ultimately have "Map_size (memoryCache (promoteAll e ks ?w1)) = Map_size (memoryCache ?w1) + length ks"
    by (rule Cons.IH [rotated])
  moreover have "promoteAll e (k # ks) w = promoteAll e ks ?w1"
    by (simp add: promoteAll_def)
  ultimately show ?case by (simp add: w1 Map_size_def)
qed

text \<open>
  Claim C10. A \<^verbatim>\<open>getCache\<close> that misses the memory tier (the key is absent, or its entry
  has expired and is deleted) and hits the persistent tier appends the promoted entry to
  the memory map with no size check and no eviction of another key. Hence promoting gets
  for \<open>n\<close> distinct absent keys grow the map by \<open>n\<close> entries, beyond the bound that only
  \<^verbatim>\<open>setCache\<close> tests.
\<close>

theorem promotion_has_no_capacity_check:
  "(fastMiss e k w \<and> kvHit e k w d \<longrightarrow>
      getCache e k w =
        (Some (d, ''kv''),
         w\<lparr>memoryCache := Map_delete k (memoryCache w) @ [(k, \<lparr>data = d, timestamp = now e\<rparr>)]\<rparr>))
   \<and> (distinct ks \<and> list_all (\<lambda>k. Map_get (memoryCache w) k = None \<and> (\<exists>d. kvHit e k w d)) ks \<longrightarrow>
        Map_size (memoryCache (promoteAll e ks w)) = Map_size (memoryCache w) + length ks)"
  using getCache_promotes promoteAll_size by blast

theorem promotion_has_no_capacity_check_witness:
  "Map_size (memoryCache world50) = MAX_MEMORY_CACHE_SIZE
   \<and> Map_size (memoryCache (promoteAll env0 [''new''] world50)) = MAX_MEMORY_CACHE_SIZE + 1
   \<and> getCache env0 ''new'' world50 =
        (Some (someInfo, ''kv''),
         world50\<lparr>memoryCache := memoryCache world50 @ [(''new'', \<lparr>data = someInfo, timestamp = 1000\<rparr>)]\<rparr>)"
proof -
  have miss: "Map_get (memoryCache world50) ''new'' = None"
    by (simp add: Map_get_def map_of_eq_None_iff world50_def image_iff new_not_keyNo)
  have fm: "fastMiss env0 ''new'' world50"
    by (simp add: fastMiss_def miss)
  have hit: "kvHit env0 ''new'' world50 someInfo"
    by (simp add: kvHit_def env0_def world50_def kv_get_def)
  have la: "list_all (\<lambda>k. Map_get (memoryCache world50) k = None \<and> (\<exists>d. kvHit env0 k world50 d)) [''new'']"
    using miss hit by auto
  from promotion_has_no_capacity_check [of env0 "''new''" world50 someInfo "[''new'']"] fm hit la
  show ?thesis
    by (simp add: world50_size MAX_MEMORY_CACHE_SIZE_def Map_delete_absent [OF miss] env0_def)
qed

section \<open>Verified properties: the resolution pipeline\<close>

text \<open>\<^verbatim>\<open>fetchSongInfo\<close> on two strings.\<close>

lemma fetchSongInfo_Str:
  "fetchSongInfo e (Str artist) (Str title) w =
     (let cacheKey = getCacheKey artist title in
      case getCache e cacheKey w of
        (Some (d, layer), w1) \<Rightarrow>
          (Inr \<lparr>info = d, cacheLayer = Some layer, fromCache = True\<rparr>, w1)
      | (None, w1) \<Rightarrow>
          (case scrapeAttempt e cacheKey artist title w1 of
             (Inr (Some found), w2) \<Rightarrow>
               (Inr \<lparr>info = found, cacheLayer = None, fromCache = False\<rparr>, w2)
           | (Inr None, w2) \<Rightarrow>
               (Inr \<lparr>info = nullInfo, cacheLayer = None, fromCache = False\<rparr>, w2)
           | (Inl err, w2) \<Rightarrow>
               (Inr \<lparr>info = nullInfo, cacheLayer = None, fromCache = False\<rparr>, w2)))"
  by (simp add: fetchSongInfo_def)

lemma axios_get_world:
  "axios_get v e url w = (res, w1) \<Longrightarrow> w1 = w\<lparr>requests := requests w @ [url]\<rparr>"
  by (auto simp: axios_get_def Let_def split: http_reply.splits if_splits)

















text \<open>
  Capacity eviction ends the protection before the TTL does. In a memory tier that holds
  the song's entry, written at 1000, as the oldest of 50, a resolve of the song at 2000 is
  served from memory. With the store refusing writes, one resolve of another song evicts
  the entry, and a resolve of the first song at 3000 is a scrape again.
\<close>

lemma evicted_key_is_scraped_again:
  "Map_size (memoryCache worldFull) = 50
   \<and> fst (fetchSongInfo (envStoreDown\<lparr>now := 2000\<rparr>) (Str ''The Weeknd'') (Str ''Blinding Lights'')
           worldFull)
       = Inr \<lparr>info = someInfo, cacheLayer = Some ''memory'', fromCache = True\<rparr>
   \<and> Map_get (memoryCache (snd (fetchSongInfo envStoreDown (Str ''Dua Lipa'') (Str ''Houdini'')
                 worldFull)))
        (getCacheKey ''The Weeknd'' ''Blinding Lights'') = None
   \<and> fst (fetchSongInfo (envStoreDown\<lparr>now := 3000\<rparr>) (Str ''The Weeknd'') (Str ''Blinding Lights'')
           (snd (fetchSongInfo envStoreDown (Str ''Dua Lipa'') (Str ''Houdini'') worldFull)))
       = Inr \<lparr>info = \<lparr>bpm = Some 171, key = Some ''C Major'', genre = None\<rparr>,
              cacheLayer = None, fromCache = False\<rparr>
   \<and> requests (snd (fetchSongInfo (envStoreDown\<lparr>now := 3000\<rparr>)
             (Str ''The Weeknd'') (Str ''Blinding Lights'')
             (snd (fetchSongInfo envStoreDown (Str ''Dua Lipa'') (Str ''Houdini'') worldFull))))
       = [''https://songbpm.com/@dua-lipa/houdini'',
          ''https://songbpm.com/@the-weeknd/blinding-lights'']"
  by code_simp






text \<open>
  What does leave \<^verbatim>\<open>fetchSongInfo\<close> as an exception is the type error of
  \<^verbatim>\<open>getCacheKey\<close> on a parameter that was given more than once: the handler's own
  \<^verbatim>\<open>catch\<close> clause answers 500, and no request is made.
\<close>

lemma array_parameter_raises:
  "fetchSongInfo e (Arr v) title w = (Inl (Error ''artist.toLowerCase is not a function''), w)
   \<and> fst (handler_song_info e
            \<lparr>req_method = ''GET'', query_artist = Some (Arr v),
             query_title = Some (Str ''Blinding Lights'')\<rparr> w)
       = \<lparr>status = 500, body = ErrorBody ''Internal server error''\<rparr>"
  by (simp add: fetchSongInfo_def handler_song_info_def falsyParam_def)

section \<open>Verified properties: the tempo range\<close>

lemma update_list_all:
  "list_all P al \<Longrightarrow> P (k, v) \<Longrightarrow> list_all P (AList.update k v al)"
  by (induction al) auto

lemma delete_list_all: "list_all P al \<Longrightarrow> list_all P (AList.delete k al)"
  by (induction al) auto

lemma kv_get_inRange:
  "list_all (\<lambda>(k, d, deadline). inRange (bpm d)) store \<Longrightarrow> kv_get t store k = Some d
   \<Longrightarrow> inRange (bpm d)"
  by (auto simp: kv_get_def list_all_iff split: option.splits if_splits dest!: map_of_SomeD)

lemma Map_get_inRange:
  "list_all (\<lambda>(k, memEntry). inRange (bpm (data memEntry))) m \<Longrightarrow> Map_get m k = Some ent
   \<Longrightarrow> inRange (bpm (data ent))"
  by (auto simp: Map_get_def list_all_iff dest!: map_of_SomeD)

lemma setCache_inRange:
  assumes "cacheInRange w" and "inRange (bpm d)"
  shows "cacheInRange (setCache e k d w)"
proof -
  let ?P = "\<lambda>(k, memEntry). inRange (bpm (data memEntry))"
  have m: "list_all ?P (memoryCache w)" and s: "list_all (\<lambda>(k, d, deadline). inRange (bpm d)) (kvStore w)"
    using assms(1) by (simp_all add: cacheInRange_def)
  have "list_all ?P (memoryStore MAX_MEMORY_CACHE_SIZE (now e) k d (memoryCache w))"
    unfolding memoryStore_def Let_def Map_set_def Map_delete_def
    by (intro update_list_all) (use m assms(2) in \<open>auto split: list.splits intro: delete_list_all\<close>)
  moreover have "list_all (\<lambda>(k, d, deadline). inRange (bpm d))
                   (kv_set (now e) k d CACHE_TTL_SECONDS (kvStore w))"
    unfolding kv_set_def by (intro update_list_all) (use s assms(2) in auto)
  ultimately show ?thesis
    using s by (simp add: cacheInRange_def setCache_def Let_def)
qed

lemma getCache_inRange:
  assumes "cacheInRange w"
  shows "cacheInRange (snd (getCache e k w))
         \<and> (\<forall>d layer. fst (getCache e k w) = Some (d, layer) \<longrightarrow> inRange (bpm d))"
proof -
  let ?P = "\<lambda>(k, memEntry). inRange (bpm (data memEntry))"
  let ?Q = "\<lambda>(k, d, deadline). inRange (bpm d)"
  have m: "list_all ?P (memoryCache w)" and s: "list_all ?Q (kvStore w)"
    using assms by (simp_all add: cacheInRange_def)
  have del: "list_all ?P (Map_delete k (memoryCache w))"
    unfolding Map_delete_def using m by (rule delete_list_all)
  have pro: "\<And>d m'. list_all ?P m' \<Longrightarrow> kv_get (now e) (kvStore w) k = Some d \<Longrightarrow>
               list_all ?P (Map_set k \<lparr>data = d, timestamp = now e\<rparr> m') \<and> inRange (bpm d)"
    unfolding Map_set_def
    using kv_get_inRange [OF s] by (auto intro: update_list_all)
  show ?thesis
  proof (cases "Map_get (memoryCache w) k")
    case None
    then show ?thesis
      using m s pro [OF m]
      by (auto simp: getCache_def cacheInRange_def split: option.splits)
  next
    case (Some ent)
    have "inRange (bpm (data ent))" using Map_get_inRange [OF m Some] .
    then show ?thesis
      using Some m s del pro [OF del]
      by (auto simp: getCache_def cacheInRange_def Let_def split: option.splits)
  qed
qed

lemma axios_get_inRange:
  "axios_get v e url w = (res, w1) \<Longrightarrow> cacheInRange w1 = cacheInRange w"
  by (auto simp: cacheInRange_def dest!: axios_get_world)

lemma artistPageFallback_inRange:
  assumes "artistPageFallback e cacheKey artistSlug titleSlug w = (res, w1)" and "cacheInRange w"
  shows "cacheInRange w1 \<and> (\<forall>found. res = Inr (Some found) \<longrightarrow> inRange (bpm found))"
proof -
  have x: "\<And>doc. inRange (bpm (extractSongInfo doc))"
    by (rule extractSongInfo_inRange)
  have r: "\<And>url. cacheInRange (w\<lparr>requests := requests w @ [url]\<rparr>)"
    using assms(2) by (simp add: cacheInRange_def)
  have r2: "\<And>url url2. cacheInRange (w\<lparr>requests := requests w @ [url] @ [url2]\<rparr>)"
    using assms(2) by (simp add: cacheInRange_def)
  show ?thesis
    using assms(1) x r r2
    by (auto simp: artistPageFallback_def axios_get_def Let_def
        split: http_reply.splits if_splits option.splits intro!: setCache_inRange)
qed

lemma scrapeAttempt_inRange:
  assumes "scrapeAttempt e cacheKey artist title w = (res, w1)" and "cacheInRange w"
  shows "cacheInRange w1 \<and> (\<forall>found. res = Inr (Some found) \<longrightarrow> inRange (bpm found))"
proof -
  have x: "\<And>doc. inRange (bpm (extractSongInfo doc))"
    by (rule extractSongInfo_inRange)
  let ?w = "w\<lparr>requests := requests w @ [directUrlOf artist title]\<rparr>"
  have r: "cacheInRange ?w"
    using assms(2) by (simp add: cacheInRange_def)
  show ?thesis
  proof (cases "http e (directUrlOf artist title)")
    case NetworkError
    then show ?thesis
      using assms(1) r by (auto simp: scrapeAttempt_def axios_get_def directUrlOf_def Let_def)
  next
    case (Reply st doc)
    show ?thesis
    proof (cases "st < 500 \<and> \<not> (st = 200 \<and> truthyNum (bpm (extractSongInfo doc)))")
      case True
      then have "artistPageFallback e cacheKey (normalizeForUrl artist) (normalizeForUrl title) ?w
                   = (res, w1)"
        using assms(1) Reply
        by (auto simp: scrapeAttempt_def axios_get_def directUrlOf_def Let_def)
      from artistPageFallback_inRange [OF this r] show ?thesis .
    next
      case False
      then show ?thesis
        using assms(1) Reply r x
        by (auto simp: scrapeAttempt_def axios_get_def directUrlOf_def Let_def
            split: if_splits intro!: setCache_inRange)
    qed
  qed
qed

lemma fetchSongInfo_Str_inRange:
  assumes "cacheInRange w"
  shows "cacheInRange (snd (fetchSongInfo e (Str artist) (Str title) w))
         \<and> (\<forall>r. fst (fetchSongInfo e (Str artist) (Str title) w) = Inr r \<longrightarrow> inRange (bpm (info r)))"
proof -
  let ?k = "getCacheKey artist title"
  obtain hit w1 where g: "getCache e ?k w = (hit, w1)"
    by (cases "getCache e ?k w")
  from getCache_inRange [OF assms, of e ?k] g
  have w1: "cacheInRange w1" and h: "\<And>d layer. hit = Some (d, layer) \<Longrightarrow> inRange (bpm d)"
    by auto
  show ?thesis
  proof (cases hit)
    case (Some a)
    then show ?thesis
      using g w1 h by (cases a) (auto simp: fetchSongInfo_Str Let_def)
  next
    case None
    obtain res w2 where s: "scrapeAttempt e ?k artist title w1 = (res, w2)"
      by (cases "scrapeAttempt e ?k artist title w1")
    from scrapeAttempt_inRange [OF s w1]
    have "cacheInRange w2" and "\<And>found. res = Inr (Some found) \<Longrightarrow> inRange (bpm found)"
      by auto
    then show ?thesis
      using g s None
      by (auto simp: fetchSongInfo_Str Let_def nullInfo_def inRange_def
          split: sum.splits option.splits)
  qed
qed

text \<open>A call that leaves with the type error neither changes the state nor has a result.\<close>

lemma fetchSongInfo_inRange:
  assumes "cacheInRange w"
  shows "cacheInRange (snd (fetchSongInfo e artist title w))
         \<and> (\<forall>r. fst (fetchSongInfo e artist title w) = Inr r \<longrightarrow> inRange (bpm (info r)))"
proof (cases artist)
  case (Arr v)
  then show ?thesis using assms by (simp add: fetchSongInfo_def)
next
  case a: (Str artistText)
  show ?thesis
  proof (cases title)
    case (Arr v)
    then show ?thesis using assms a by (simp add: fetchSongInfo_def)
  next
    case (Str titleText)
    with a fetchSongInfo_Str_inRange [OF assms] show ?thesis by simp
  qed
qed

text \<open>
  Claim C4. For every page, the \<^verbatim>\<open>bpm\<close> field returned by the extractor of the
  song-info function is null or an integer between 40 and 240, and so is the tempo the
  Express parser returns when it does not throw. No integer outside the range is surfaced
  or stored: when every tempo held in the two cache tiers is in the range, it is so again
  after \<^verbatim>\<open>fetchSongInfo\<close>, whose result is in the range as well.
\<close>

theorem bpm_in_range:
  "inRange (bpm (extractSongInfo html))
   \<and> inRange (parsedBpm (scrapeSongBPM_parse html))
   \<and> (cacheInRange w \<longrightarrow>
        cacheInRange (snd (fetchSongInfo e artist title w))
        \<and> (\<forall>r. fst (fetchSongInfo e artist title w) = Inr r \<longrightarrow> inRange (bpm (info r))))"
  using extractSongInfo_inRange scrapeSongBPM_parse_inRange fetchSongInfo_inRange by blast

theorem bpm_in_range_witness:
  "inRange (bpm (extractSongInfo unlabelledPage))
   \<and> inRange (parsedBpm (scrapeSongBPM_parse unlabelledPage))
   \<and> cacheInRange world0
   \<and> cacheInRange (snd (fetchSongInfo envFound (Str ''The Weeknd'') (Str ''Blinding Lights'') world0))
   \<and> bpm (info (projr (fst (fetchSongInfo envFound (Str ''The Weeknd'') (Str ''Blinding Lights'') world0))))
       = Some 171
   \<and> inRange (Some 171)"
proof -
  have 1: "cacheInRange world0"
    by (simp add: cacheInRange_def world0_def)
  have 2: "fst (fetchSongInfo envFound (Str ''The Weeknd'') (Str ''Blinding Lights'') world0)
             = Inr \<lparr>info = \<lparr>bpm = Some 171, key = Some ''C Major'', genre = None\<rparr>,
                    cacheLayer = None, fromCache = False\<rparr>"
    by code_simp
  from bpm_in_range [where html = unlabelledPage and w = world0 and e = envFound
      and artist = "Str ''The Weeknd''" and title = "Str ''Blinding Lights''"] 1 2
  show ?thesis by simp
qed

section \<open>Verified properties: the search function\<close>

lemma searchSpotify_returns: "\<exists>r. fst (searchSpotify e query st) = Inr r"
  by (auto simp: searchSpotify_def split: prod.splits sum.splits search_reply.splits
      option.splits list.splits)

lemma searchSpotify_failure:
  "catalogFailure e st \<Longrightarrow> fst (searchSpotify e query st) = Inr None"
  by (auto simp: searchSpotify_def catalogFailure_def split: prod.splits sum.splits
      search_reply.splits option.splits list.splits)

lemma searchSpotify_empty:
  "noCandidates e st \<Longrightarrow> fst (searchSpotify e query st) = Inr None"
  by (auto simp: searchSpotify_def noCandidates_def split: prod.splits sum.splits)

lemma handler_search_null:
  "query \<noteq> [] \<Longrightarrow> fst (searchSpotify e query st) = Inr None \<Longrightarrow>
   fst (handler_search e (searchRequest query) st) = notFoundResponse query"
  by (cases "searchSpotify e query st")
     (auto simp: handler_search_def searchRequest_def notFoundResponse_def)

text \<open>
  Claim C8, as stated, fails: \<^verbatim>\<open>searchSpotify\<close> wraps the token request and the search
  request in \<^verbatim>\<open>try\<close>, and its \<^verbatim>\<open>catch\<close> clause returns null. A refused token request
  gives the same answer as an empty candidate set: status 200 and the not-found entry.
\<close>

theorem auth_failure_looks_like_not_found:
  "catalogFailure envAuthFailure tokens0
   \<and> noCandidates envNoTracks tokens0
   \<and> fst (searchSpotify envAuthFailure ''blinding lights'' tokens0) = Inr None
   \<and> fst (handler_search envAuthFailure (searchRequest ''blinding lights'') tokens0)
       = fst (handler_search envNoTracks (searchRequest ''blinding lights'') tokens0)
   \<and> s_status (fst (handler_search envAuthFailure (searchRequest ''blinding lights'') tokens0))
       = 200"
  by (simp add: catalogFailure_def noCandidates_def envAuthFailure_def envNoTracks_def
      tokens0_def getSpotifyToken_def truthyStr_def searchSpotify_def handler_search_def
      searchRequest_def)

text \<open>
  Claim C8, amended. \<^verbatim>\<open>searchSpotify\<close> never raises, and the handler answers every GET
  that carries a query with status 200. An empty candidate set yields null, rendered as
  the not-found entry; an authentication or network failure against the catalogue is
  caught inside \<^verbatim>\<open>searchSpotify\<close> and yields null as well, so the handler gives the
  same not-found answer and the caller cannot tell the two outcomes apart.
\<close>

theorem search_failure_is_swallowed:
  "(\<exists>r. fst (searchSpotify e query st) = Inr r)
   \<and> (query \<noteq> [] \<longrightarrow> s_status (fst (handler_search e (searchRequest query) st)) = 200)
   \<and> (query \<noteq> [] \<and> (noCandidates e st \<or> catalogFailure e st) \<longrightarrow>
        fst (searchSpotify e query st) = Inr None
        \<and> fst (handler_search e (searchRequest query) st) = notFoundResponse query)"
proof (intro conjI impI)
  show "\<exists>r. fst (searchSpotify e query st) = Inr r"
    by (rule searchSpotify_returns)
next
  assume "query \<noteq> []"
  moreover obtain r where "fst (searchSpotify e query st) = Inr r"
    using searchSpotify_returns by blast
  ultimately show "s_status (fst (handler_search e (searchRequest query) st)) = 200"
    by (cases "searchSpotify e query st"; cases r)
       (auto simp: handler_search_def searchRequest_def)
next
  assume a: "query \<noteq> [] \<and> (noCandidates e st \<or> catalogFailure e st)"
  then show n: "fst (searchSpotify e query st) = Inr None"
    using searchSpotify_empty searchSpotify_failure by blast
  show "fst (handler_search e (searchRequest query) st) = notFoundResponse query"
    using a n by (simp add: handler_search_null)
qed

theorem search_failure_is_swallowed_witness:
  "''blinding lights'' \<noteq> []
   \<and> catalogFailure envAuthFailure tokens0
   \<and> fst (searchSpotify envAuthFailure ''blinding lights'' tokens0) = Inr None
   \<and> fst (handler_search envAuthFailure (searchRequest ''blinding lights'') tokens0)
       = notFoundResponse ''blinding lights''
   \<and> s_status (fst (handler_search envAuthFailure (searchRequest ''blinding lights'') tokens0))
       = 200"
proof -
  have 1: "''blinding lights'' \<noteq> []" by simp
  have 2: "catalogFailure envAuthFailure tokens0"
    by (simp add: catalogFailure_def envAuthFailure_def tokens0_def getSpotifyToken_def
        truthyStr_def)
  from search_failure_is_swallowed [of envAuthFailure "''blinding lights''" tokens0] 1 2
  show ?thesis by blast
qed

section \<open>Verified properties: the search adapter\<close>

lemma isFirstMax_here:
  "list_all (\<lambda>u. f u \<le> f t) xs \<Longrightarrow> isFirstMax f t (t # xs)"
  unfolding isFirstMax_def by (intro exI [of _ "[]"] exI [of _ xs]) simp

lemma isFirstMax_later:
  "f x < f t \<Longrightarrow> isFirstMax f t xs \<Longrightarrow> isFirstMax f t (x # xs)"
proof -
  assume lt: "f x < f t" and "isFirstMax f t xs"
  then obtain pre post where xs: "xs = pre @ t # post"
    and pre: "list_all (\<lambda>u. f u < f t) pre" and post: "list_all (\<lambda>u. f u \<le> f t) post"
    by (auto simp: isFirstMax_def)
  show ?thesis
    unfolding isFirstMax_def
    by (intro exI [of _ "x # pre"] exI [of _ post]) (simp add: xs pre post lt)
qed

text \<open>The scoring loop from any starting pair: either no track beats the starting score
  and the pair is unchanged, or the loop ends at the first track of greatest score.\<close>

lemma best_loop:
  fixes f :: "'a \<Rightarrow> rat"
  assumes "foldl (\<lambda>(bt, bs) t. if f t > bs then (t, f t) else (bt, bs)) (bt0, bs0) xs = (rt, rs)"
  shows "(rt = bt0 \<and> rs = bs0 \<and> list_all (\<lambda>u. f u \<le> bs0) xs)
         \<or> (rs = f rt \<and> bs0 < rs \<and> isFirstMax f rt xs)"
  using assms
proof (induction xs arbitrary: bt0 bs0)
  case Nil
  then show ?case by simp
next
  case (Cons x xs)
  show ?case
  proof (cases "f x > bs0")
    case True
    with Cons.prems
    have "foldl (\<lambda>(bt, bs) t. if f t > bs then (t, f t) else (bt, bs)) (x, f x) xs = (rt, rs)"
      by simp
    from Cons.IH [OF this] show ?thesis
    proof
      assume "rt = x \<and> rs = f x \<and> list_all (\<lambda>u. f u \<le> f x) xs"
      then show ?thesis using True by (simp add: isFirstMax_here)
    next
      assume "rs = f rt \<and> f x < rs \<and> isFirstMax f rt xs"
      then show ?thesis using True by (auto intro: isFirstMax_later)
    qed
  next
    case False
    with Cons.prems
    have "foldl (\<lambda>(bt, bs) t. if f t > bs then (t, f t) else (bt, bs)) (bt0, bs0) xs = (rt, rs)"
      by simp
    from Cons.IH [OF this] show ?thesis
    proof
      assume "rt = bt0 \<and> rs = bs0 \<and> list_all (\<lambda>u. f u \<le> bs0) xs"
      then show ?thesis using False by simp
    next
      assume a: "rs = f rt \<and> bs0 < rs \<and> isFirstMax f rt xs"
      with False have "f x < f rt" by simp
      with a show ?thesis by (auto intro: isFirstMax_later)
    qed
  qed
qed

lemma popular_loop:
  fixes f :: "'a \<Rightarrow> int"
  shows "(foldl (\<lambda>prev cur. if f cur > f prev then cur else prev) p xs = p
            \<and> list_all (\<lambda>u. f u \<le> f p) xs)
         \<or> (f p < f (foldl (\<lambda>prev cur. if f cur > f prev then cur else prev) p xs)
             \<and> isFirstMax f (foldl (\<lambda>prev cur. if f cur > f prev then cur else prev) p xs) xs)"
proof (induction xs arbitrary: p)
  case Nil
  then show ?case by simp
next
  case (Cons x xs)
  let ?g = "\<lambda>prev cur. if f cur > f prev then cur else prev"
  show ?case
  proof (cases "f x > f p")
    case True
    then have s: "foldl ?g p (x # xs) = foldl ?g x xs" by simp
    from Cons.IH [of x] show ?thesis
    proof
      assume "foldl ?g x xs = x \<and> list_all (\<lambda>u. f u \<le> f x) xs"
      then show ?thesis using True by (simp add: isFirstMax_here)
    next
      assume "f x < f (foldl ?g x xs) \<and> isFirstMax f (foldl ?g x xs) xs"
      then show ?thesis unfolding s using True by (auto intro: isFirstMax_later)
    qed
  next
    case False
    then have s: "foldl ?g p (x # xs) = foldl ?g p xs" by simp
    from Cons.IH [of p] show ?thesis
    proof
      assume "foldl ?g p xs = p \<and> list_all (\<lambda>u. f u \<le> f p) xs"
      then show ?thesis unfolding s using False by simp
    next
      assume a: "f p < f (foldl ?g p xs) \<and> isFirstMax f (foldl ?g p xs) xs"
      with False have "f x < f (foldl ?g p xs)" by simp
      with a show ?thesis unfolding s by (auto intro: isFirstMax_later)
    qed
  qed
qed

text \<open>The most popular track is the first track of greatest popularity.\<close>

lemma mostPopularOf_firstMax:
  "isFirstMax popularity (mostPopularOf first rest) (first # rest)"
  using popular_loop [of popularity first rest]
  by (auto simp: mostPopularOf_def intro: isFirstMax_here isFirstMax_later)

text \<open>When some candidate scores above \<open>-1\<close>, the loop ends at the first candidate of
  greatest score, with that score.\<close>

lemma bestMatch_firstMax:
  assumes "list_ex (\<lambda>t. scoreOf query t > - 1) tracks"
  shows "isFirstMax (scoreOf query) (fst (bestMatch query first tracks)) tracks
         \<and> snd (bestMatch query first tracks) = scoreOf query (fst (bestMatch query first tracks))"
proof -
  obtain rt rs where b: "bestMatch query first tracks = (rt, rs)"
    by (cases "bestMatch query first tracks")
  then have "foldl (\<lambda>(bt, bs) t. if scoreOf query t > bs then (t, scoreOf query t) else (bt, bs))
               (first, - 1) tracks = (rt, rs)"
    by (simp add: bestMatch_def)
  from best_loop [OF this] assms show ?thesis
    by (auto simp: b list_all_iff list_ex_iff)
qed

text \<open>
  The rule of claim C7 in exact scores, on every candidate set in which some candidate
  scores above \<open>-1\<close>: with \<open>t\<close> the first candidate of greatest score and \<open>p\<close> the first
  candidate of greatest popularity, the adapter returns \<open>p\<close> when \<open>t\<close> has popularity
  below 30 and score below 40 and \<open>p\<close> has popularity 60 or more, and \<open>t\<close> otherwise.
\<close>

lemma chooseTrack_rule:
  assumes "list_ex (\<lambda>t. scoreOf query t > - 1) (first # rest)"
  shows "\<exists>t p. isFirstMax (scoreOf query) t (first # rest)
           \<and> isFirstMax popularity p (first # rest)
           \<and> chooseTrack query first rest =
               (if popularity t < 30 \<and> scoreOf query t < 40 \<and> popularity p \<ge> 60
                then resultOf p ''medium''
                else resultOf t (if scoreOf query t > 50 then ''high'' else ''medium''))"
proof -
  obtain t bestScore where b: "bestMatch query first (first # rest) = (t, bestScore)"
    by (cases "bestMatch query first (first # rest)")
  let ?p = "mostPopularOf first rest"
  from bestMatch_firstMax [OF assms, of first] b
  have t: "isFirstMax (scoreOf query) t (first # rest)" and s: "bestScore = scoreOf query t"
    by simp_all
  have "chooseTrack query first rest =
          (if popularity t < 30 \<and> scoreOf query t < 40 \<and> popularity ?p \<ge> 60
           then resultOf ?p ''medium''
           else resultOf t (if scoreOf query t > 50 then ''high'' else ''medium''))"
    by (simp add: chooseTrack_def b s Let_def)
  with t mostPopularOf_firstMax show ?thesis by blast
qed

text \<open>
  Claim C7. When the best-scored candidate has popularity below 30 and score below 40, the
  adapter returns the candidate of greatest popularity if that popularity is 60 or more,
  and the best-scored candidate otherwise. The code does so whenever some candidate scores
  above \<open>-1\<close> (the lemma above, in exact scores), and so in the scenario of the
  specification, where all scores are integers: for the
  query \<^verbatim>\<open>nights zz\<close> the best-scored candidate has popularity 5 and score 20, the
  other has popularity 85 and score 15, and the adapter returns the one of popularity 85.
  The code does not when every score is \<open>-1\<close> or less: for the query \<^verbatim>\<open>qq\<close> and two
  candidates of popularity 0 that score \<open>-24\<close> and \<open>-16\<close>, the best-scored candidate is
  the second and no candidate has popularity 60 or more, so the claim keeps the second;
  the adapter returns the first, because \<^verbatim>\<open>bestScore\<close> starts at \<open>-1\<close> and no score
  exceeds it.
\<close>

theorem negative_scores_return_first_track:
  "scoreOf ''nights zz'' trackObscure = 20 \<and> scoreOf ''nights zz'' trackHit = 15
   \<and> searchSpotifyAPI (Inr ''token'') (FetchResponse True (Some [trackObscure, trackHit]))
        ''nights zz'' = Some (resultOf trackHit ''medium'')
   \<and> scoreOf ''qq'' trackAlpha = - 24 \<and> scoreOf ''qq'' trackDelta = - 16
   \<and> isFirstMax (scoreOf ''qq'') trackDelta [trackAlpha, trackDelta]
   \<and> popularity trackAlpha = 0 \<and> popularity trackDelta = 0
   \<and> searchSpotifyAPI (Inr ''token'') (FetchResponse True (Some [trackAlpha, trackDelta]))
        ''qq'' = Some (resultOf trackAlpha ''medium'')
   \<and> resultOf trackAlpha ''medium'' \<noteq> resultOf trackDelta ''medium''"
proof -
  have 1: "scoreOf ''nights zz'' trackObscure = 20 \<and> scoreOf ''nights zz'' trackHit = 15"
    by code_simp
  have 2: "searchSpotifyAPI (Inr ''token'') (FetchResponse True (Some [trackObscure, trackHit]))
             ''nights zz'' = Some (resultOf trackHit ''medium'')"
    by code_simp
  have 3: "scoreOf ''qq'' trackAlpha = - 24 \<and> scoreOf ''qq'' trackDelta = - 16"
    by code_simp
  have 4: "isFirstMax (scoreOf ''qq'') trackDelta [trackAlpha, trackDelta]"
    unfolding isFirstMax_def
    by (intro exI [of _ "[trackAlpha]"] exI [of _ "[]"]) (simp add: 3)
  have 5: "popularity trackAlpha = 0 \<and> popularity trackDelta = 0"
    by (simp add: trackAlpha_def trackDelta_def)
  have 6: "searchSpotifyAPI (Inr ''token'') (FetchResponse True (Some [trackAlpha, trackDelta]))
             ''qq'' = Some (resultOf trackAlpha ''medium'')"
    by code_simp
  have 7: "resultOf trackAlpha ''medium'' \<noteq> resultOf trackDelta ''medium''"
    by (simp add: resultOf_def trackAlpha_def trackDelta_def)
  from 1 2 3 4 5 6 7 show ?thesis by blast
qed

end
